theory Spec2Isabelle
  imports Main "HOL-Library.Sublist" "HOL-Library.Multiset"
begin

section \<open>Items, lanes and boards\<close>

text \<open>
  The board model of \<open>src/components/types\<close> as the source files use it. An item's
  \<open>checkChar\<close> is a one-character string. The three \<open>project*\<close> fields are the
  ones \<open>aggregateBoards\<close> adds to an item's data and \<open>syncToProjectFiles\<close> resets to
  \<open>undefined\<close> (\<open>None\<close>). Strings are character lists; an identifier that
  JavaScript treats as falsy is the empty string.
\<close>

datatype error = Error string | TypeError string

text \<open>
  A JavaScript value as far as the settings and the frontmatter need it; \<open>truthy\<close>
  is JavaScript's conversion to a boolean.
\<close>

datatype jvalue = JUndefined | JNull | JBool bool | JNum int | JStr string | JOther string

fun truthy :: "jvalue \<Rightarrow> bool" where
  "truthy JUndefined = False"
| "truthy JNull = False"
| "truthy (JBool b) = b"
| "truthy (JNum n) = (n \<noteq> 0)"
| "truthy (JStr s) = (s \<noteq> [])"
| "truthy (JOther s) = True"

record tfile =
  path :: string
  basename :: string

record fileAccessor =
  target :: string
  isEmbed :: bool

record inlineField =
  field_key :: string
  field_start :: nat
  field_end :: nat

record itemMetadata =
  dateStr :: "string option"
  timeStr :: "string option"
  tags :: "string list"
  fileAccessor :: "fileAccessor option"
  fileMetadata :: "string option"
  fileMetadataOrder :: "string option"
  inlineMetadata :: "inlineField list option"

record itemData =
  titleRaw :: string
  blockId :: "string option"
  title :: string
  titleSearch :: string
  titleSearchRaw :: string
  metadata :: itemMetadata
  checked :: bool
  checkChar :: string
  projectFile :: "tfile option"
  projectLaneId :: "string option"
  projectItemId :: "string option"

record item =
  item_id :: string
  item_data :: itemData

record laneData =
  lane_title :: string
  shouldMarkItemsComplete :: bool
  maxItems :: nat

record lane =
  lane_id :: string
  lane_data :: laneData
  lane_children :: "item list"

record errorEntry =
  description :: string
  stack :: string

record boardData =
  archive :: "item list"
  settings :: "(string \<times> jvalue) list"
  frontmatter :: "(string \<times> jvalue) list"
  isSearching :: bool
  errors :: "errorEntry list"

record board =
  board_id :: string
  board_children :: "lane list"
  board_data :: boardData

section \<open>The checkbox transition (ItemCheckbox.tsx)\<close>

text \<open>
  \<open>onCheckboxChange\<close>: the item handed to \<open>boardModifiers.updateItem\<close>. The done
  character is what \<open>getTaskStatusDone()\<close> returns; that function is not among the
  source files, so it is a parameter.
\<close>

definition onCheckboxChange :: "string \<Rightarrow> item \<Rightarrow> item" where
  "onCheckboxChange doneChar it =
     (let currentChar = checkChar (item_data it);
          (nextChar, nextChecked) =
            (if currentChar = '' '' then (''/'', False)
             else if currentChar = ''/'' then (doneChar, True)
             else if currentChar = doneChar then ('' '', False)
             else ('' '', False))
      in it\<lparr>item_data := (item_data it)\<lparr>checkChar := nextChar, checked := nextChecked\<rparr>\<rparr>)"


section \<open>Composite identifiers (ProjectStateManager.ts)\<close>

text \<open>
  \<open>id.split(':::')\<close> and \<open>parts.join(':::')\<close>. JavaScript's \<open>split\<close> scans from
  the left, cuts at every occurrence of the separator that does not overlap the
  previous one, and always returns at least one segment.
\<close>
fun split_sep_aux :: "string \<Rightarrow> string \<Rightarrow> string list" where
  "split_sep_aux acc [] = [rev acc]"
| "split_sep_aux acc (c # cs) =
     (if take 3 (c # cs) = '':::'' then rev acc # split_sep_aux [] (drop 2 cs)
      else split_sep_aux (c # acc) cs)"

definition split_sep :: "string \<Rightarrow> string list" where
  "split_sep s = split_sep_aux [] s"

fun join_sep :: "string list \<Rightarrow> string" where
  "join_sep [] = []"
| "join_sep [x] = x"
| "join_sep (x # y # ys) = x @ '':::'' @ join_sep (y # ys)"


fun containsSep :: "string \<Rightarrow> bool" where
  "containsSep [] = False"
| "containsSep (c # cs) = (take 3 (c # cs) = '':::'' \<or> containsSep cs)"

definition endsWithColon :: "string \<Rightarrow> bool" where
  "endsWithColon s = (s \<noteq> [] \<and> last s = CHR '':'')"

definition okSegment :: "string \<Rightarrow> bool" where
  "okSegment s = (\<not> containsSep s \<and> \<not> endsWithColon s)"

section \<open>Aggregation and reconciliation (ProjectStateManager.ts)\<close>

text \<open>
  \<open>projectFiles\<close> is a JavaScript \<open>Map\<close> from a file's path to its
  \<open>ProjectFile\<close>: an association list in insertion order, \<open>map_of\<close> for
  \<open>get\<close>, \<open>map_set\<close> for \<open>set\<close> (an existing key keeps its place).
\<close>

record projectFile =
  "file" :: tfile
  board :: board
  originalContent :: string

type_synonym projectFiles = "(string \<times> projectFile) list"

fun map_set :: "('k \<times> 'v) list \<Rightarrow> 'k \<Rightarrow> 'v \<Rightarrow> ('k \<times> 'v) list" where
  "map_set [] k v = [(k, v)]"
| "map_set ((k', v') # m) k v = (if k' = k then (k, v) # m else (k', v') # map_set m k v)"

text \<open>
  The aggregated board the constructor starts from. \<open>frontmatterKey\<close> is a constant
  of \<open>parsers/common\<close>, which is not among the source files: a parameter.
\<close>

definition initialAggregatedBoard :: "string \<Rightarrow> board" where
  "initialAggregatedBoard frontmatterKey =
     \<lparr>board_id = ''project-aggregated-board'', board_children = [],
      board_data = \<lparr>archive = [], settings = [(frontmatterKey, JStr ''board'')],
        frontmatter = [], isSearching = False, errors = []\<rparr>\<rparr>"

text \<open>The decimal digits of an index, for the template string \<open>lane-${laneIndex}\<close>.\<close>

fun showNat :: "nat \<Rightarrow> string" where
  "showNat n =
     (if n < 10 then [char_of (48 + n)]
      else showNat (n div 10) @ [char_of (48 + n mod 10)])"

text \<open>
  \<open>aggregateBoards\<close>. \<open>lane.id || `lane-${laneIndex}`\<close> is \<open>laneKey\<close>,
  \<open>item.id || 'unknown'\<close> is \<open>itemKey\<close>. Lanes and items of a typed board are
  never \<open>null\<close>, so the source's guards against missing lanes and items have no
  branch here.
\<close>

definition laneKey :: "lane \<Rightarrow> nat \<Rightarrow> string" where
  "laneKey l laneIndex = (if lane_id l = [] then ''lane-'' @ showNat laneIndex else lane_id l)"

definition itemKey :: "item \<Rightarrow> string" where
  "itemKey it = (if item_id it = [] then ''unknown'' else item_id it)"

definition aggregateItem :: "string \<Rightarrow> projectFile \<Rightarrow> lane \<Rightarrow> nat \<Rightarrow> item \<Rightarrow> item" where
  "aggregateItem filePath pf l laneIndex it =
     it\<lparr>item_id := filePath @ '':::'' @ laneKey l laneIndex @ '':::'' @ itemKey it,
        item_data := (item_data it)\<lparr>projectFile := Some (file pf),
          projectLaneId := Some (laneKey l laneIndex),
          projectItemId := Some (itemKey it)\<rparr>\<rparr>"

definition aggregateLane :: "string \<Rightarrow> projectFile \<Rightarrow> nat \<times> lane \<Rightarrow> lane" where
  "aggregateLane filePath pf = (\<lambda>(laneIndex, l).
     \<lparr>lane_id = filePath @ '':::'' @ laneKey l laneIndex,
      lane_data = (lane_data l)\<lparr>lane_title :=
        (if lane_title (lane_data l) = [] then ''Untitled'' else lane_title (lane_data l))\<rparr>,
      lane_children = map (aggregateItem filePath pf l laneIndex) (lane_children l)\<rparr>)"

definition aggregatedLanes :: "projectFiles \<Rightarrow> lane list" where
  "aggregatedLanes pfs =
     concat (map (\<lambda>(filePath, pf).
       map (aggregateLane filePath pf) (enumerate 0 (board_children (board pf)))) pfs)"

definition aggregateBoards :: "projectFiles \<Rightarrow> board \<Rightarrow> board" where
  "aggregateBoards pfs aggregatedBoard =
     aggregatedBoard\<lparr>board_children := aggregatedLanes pfs\<rparr>"

text \<open>\<open>findOriginalItem\<close>: \<open>None\<close> is the source's \<open>null\<close>.\<close>

definition findOriginalItem :: "projectFiles \<Rightarrow> string \<Rightarrow> (projectFile \<times> lane \<times> item) option" where
  "findOriginalItem pfs aggregatedItemId =
     (let parts = split_sep aggregatedItemId in
      if length parts < 3 then None
      else
        let filePath = parts ! 0; laneId = parts ! 1; itemId = join_sep (drop 2 parts) in
        case map_of pfs filePath of
          None \<Rightarrow> None
        | Some pf \<Rightarrow>
            (case find (\<lambda>l. lane_id l = laneId) (board_children (board pf)) of
               None \<Rightarrow> None
             | Some l \<Rightarrow>
                 (case find (\<lambda>i. item_id i = itemId) (lane_children l) of
                    None \<Rightarrow> None
                  | Some i \<Rightarrow> Some (pf, l, i))))"






text \<open>
  Well-formed project files: the map's keys are the files' paths, no path or lane
  identifier contains the separator or ends in a colon, identifiers are not empty, and
  lane identifiers are unique within a board (the data model's invariant).
\<close>

definition wfItem :: "item \<Rightarrow> bool" where
  "wfItem it = (item_id it \<noteq> [])"

definition wfLane :: "lane \<Rightarrow> bool" where
  "wfLane l = (lane_id l \<noteq> [] \<and> okSegment (lane_id l) \<and> list_all wfItem (lane_children l))"

definition wfProjectFile :: "string \<times> projectFile \<Rightarrow> bool" where
  "wfProjectFile = (\<lambda>(p, pf). path (file pf) = p \<and> okSegment p
     \<and> list_all wfLane (board_children (board pf))
     \<and> distinct (map lane_id (board_children (board pf))))"

definition wfProjectFiles :: "projectFiles \<Rightarrow> bool" where
  "wfProjectFiles pfs = (distinct (map fst pfs) \<and> list_all wfProjectFile pfs)"

section \<open>Path-addressed moves\<close>

text \<open>
  Modelled from the spec: the tree mutation engine (\<open>getEntityFromPath\<close>,
  \<open>insertEntity\<close>, \<open>removeEntity\<close> and \<open>moveEntity\<close> of \<open>src/dnd/util/data\<close>)
  is imported by the source files but is not among them. The definitions follow the
  spec's section on the engine: operations addressed by a path of indices that return a
  new board, \<open>None\<close> when the path does not name a place in the board, and a move
  that removes the source and inserts at the destination, the insertion index lowered
  by one when the destination index is greater than the source index in the same
  parent collection. They cover paths of length two, \<open>[laneIndex, itemIndex]\<close>; the
  two optional transforms of a move are left out.
\<close>

type_synonym path = "nat list"

definition laneItems :: "board \<Rightarrow> nat \<Rightarrow> item list" where
  "laneItems b L = lane_children (board_children b ! L)"

definition setLaneItems :: "board \<Rightarrow> nat \<Rightarrow> item list \<Rightarrow> board" where
  "setLaneItems b L xs =
     b\<lparr>board_children := (board_children b)[L := (board_children b ! L)\<lparr>lane_children := xs\<rparr>]\<rparr>"

fun getEntityFromPath :: "board \<Rightarrow> path \<Rightarrow> item option" where
  "getEntityFromPath b [L, i] =
     (if L < length (board_children b) \<and> i < length (laneItems b L)
      then Some (laneItems b L ! i) else None)"
| "getEntityFromPath b p = None"

fun insertEntity :: "board \<Rightarrow> path \<Rightarrow> item list \<Rightarrow> board option" where
  "insertEntity b [L, i] entities =
     (if L < length (board_children b) \<and> i \<le> length (laneItems b L)
      then Some (setLaneItems b L (take i (laneItems b L) @ entities @ drop i (laneItems b L)))
      else None)"
| "insertEntity b p entities = None"

fun removeEntity :: "board \<Rightarrow> path \<Rightarrow> board option" where
  "removeEntity b [L, i] =
     (if L < length (board_children b) \<and> i < length (laneItems b L)
      then Some (setLaneItems b L (take i (laneItems b L) @ drop (Suc i) (laneItems b L)))
      else None)"
| "removeEntity b p = None"

fun moveEntity :: "board \<Rightarrow> path \<Rightarrow> path \<Rightarrow> board option" where
  "moveEntity b [sl, s] [dl, d] =
     (case getEntityFromPath b [sl, s] of
        None \<Rightarrow> None
      | Some entity \<Rightarrow>
          (case removeEntity b [sl, s] of
             None \<Rightarrow> None
           | Some removed \<Rightarrow>
               insertEntity removed [dl, if sl = dl \<and> s < d then d - 1 else d] [entity]))"
| "moveEntity b src dst = None"

section \<open>The syntax tree (parseMarkdown, formats/list)\<close>

text \<open>
  The source types every tree node as \<open>any\<close>. A node is \<open>null\<close>/\<open>undefined\<close>
  (\<open>NullNode\<close>) or an object with a \<open>type\<close>, the attributes the source reads, and a
  \<open>children\<close> field that is absent, \<open>null\<close> or \<open>undefined\<close> (\<open>Nullish\<close>), some
  value that is not an array, or an array whose elements may themselves be \<open>null\<close>.
  \<open>n_start\<close> and \<open>n_end\<close> are \<open>position?.start?.offset\<close> and
  \<open>position?.end?.offset\<close>.
\<close>

record attrs =
  n_value :: "string option"
  n_alt :: "string option"
  n_start :: "nat option"
  n_end :: "nat option"
  n_checked :: "bool option"
  n_checkChar :: "string option"
  n_date :: "string option"
  n_time :: "string option"
  n_fileAccessor :: "fileAccessor option"
  n_fileMetadata :: "string option"
  n_fileMetadataOrder :: "string option"

datatype 'n kids = Absent | Nullish | NotArray | Arr "'n list"

datatype node = NullNode | Node (ntype: string) (nattrs: attrs) (nkids: "node kids")

text \<open>
  The repair pass of \<open>parseMarkdown\<close> and \<open>formats/list\<close>: beyond depth 100 a node
  is returned as it is.
\<close>

fun ensureChildrenAreArrays :: "node \<Rightarrow> nat \<Rightarrow> node" where
  "ensureChildrenAreArrays NullNode depth = NullNode"
| "ensureChildrenAreArrays (Node ty a k) depth =
     (if depth > 100 then Node ty a k
      else Node ty a
        (case k of
           Absent \<Rightarrow> Absent
         | Nullish \<Rightarrow> Arr []
         | NotArray \<Rightarrow> Arr []
         | Arr cs \<Rightarrow>
             Arr (filter (\<lambda>child. child \<noteq> NullNode)
                    (map (\<lambda>child. ensureChildrenAreArrays child (depth + 1)) cs))))"

text \<open>The repair pass of \<open>ProjectStateManager\<close>, without a depth limit.\<close>

fun sanitizeAST :: "node \<Rightarrow> node" where
  "sanitizeAST NullNode = NullNode"
| "sanitizeAST (Node ty a k) =
     Node ty a
       (case k of
          Absent \<Rightarrow> Absent
        | Nullish \<Rightarrow> Arr []
        | NotArray \<Rightarrow> Arr []
        | Arr cs \<Rightarrow> Arr (filter (\<lambda>child. child \<noteq> NullNode) (map sanitizeAST cs)))"



section \<open>Strings as JavaScript reads them\<close>

text \<open>
  \<open>md[i]\<close> is \<open>undefined\<close> outside the string, \<open>slice\<close> clamps its bounds and
  counts negative ones from the end, \<open>trim\<close> removes white space and line
  terminators at both ends, \<open>indexOf\<close> returns -1 when the character is missing.
  A character is a code unit below 256; of these JavaScript counts as white space or
  line terminator the tab, line feed, vertical tab, form feed, carriage return, the
  space and the no-break space U+00A0.
\<close>

definition charAt :: "string \<Rightarrow> int \<Rightarrow> char option" where
  "charAt s i = (if 0 \<le> i \<and> i < int (length s) then Some (s ! nat i) else None)"

definition jsSlice :: "string \<Rightarrow> int \<Rightarrow> int \<Rightarrow> string" where
  "jsSlice s a b =
     (let n = int (length s);
          a' = (if a < 0 then max (n + a) 0 else min a n);
          b' = (if b < 0 then max (n + b) 0 else min b n)
      in take (nat (b' - a')) (drop (nat a') s))"

definition isSpace :: "char \<Rightarrow> bool" where
  "isSpace c = (c \<in> {CHR 0x09, CHR 0x0A, CHR 0x0B, CHR 0x0C, CHR 0x0D, CHR 0x20, CHR 0xA0})"

definition trim :: "string \<Rightarrow> string" where
  "trim s = rev (dropWhile isSpace (rev (dropWhile isSpace s)))"

definition isLineBreak :: "char option \<Rightarrow> bool" where
  "isLineBreak c = (c = Some (CHR 0x0D) \<or> c = Some (CHR 0x0A))"

fun indexOf :: "string \<Rightarrow> char \<Rightarrow> int" where
  "indexOf [] c = -1"
| "indexOf (x # xs) c = (if x = c then 0 else (let r = indexOf xs c in if r < 0 then -1 else r + 1))"

section \<open>The state manager and the collaborators that are not among the sources\<close>

text \<open>
  The state manager is the one \<open>createTempStateManager\<close> builds: \<open>getSetting\<close> reads
  the compiled settings and falls back to the global ones, \<open>compileSettings\<close> is
  \<open>Object.assign\<close>.
\<close>

record stateManager =
  sm_file :: tfile
  compiledSettings :: "(string \<times> jvalue) list"
  globalSettings :: "string \<Rightarrow> jvalue"

definition getSetting :: "stateManager \<Rightarrow> string \<Rightarrow> jvalue" where
  "getSetting sm key =
     (case map_of (compiledSettings sm) key of
        None \<Rightarrow> globalSettings sm key
      | Some v \<Rightarrow> if v = JNull \<or> v = JUndefined then globalSettings sm key else v)"

definition compileSettings :: "stateManager \<Rightarrow> (string \<times> jvalue) list \<Rightarrow> stateManager" where
  "compileSettings sm newSettings =
     sm\<lparr>compiledSettings := fold (\<lambda>(k, v) m. map_set m k v) newSettings (compiledSettings sm)\<rparr>"

definition createTempStateManager :: "(string \<Rightarrow> jvalue) \<Rightarrow> tfile \<Rightarrow> stateManager" where
  "createTempStateManager getGlobalSettings f =
     \<lparr>sm_file = f, compiledSettings = [], globalSettings = getGlobalSettings\<rparr>"

text \<open>
  The source files import these and do not contain them; they are parameters of the
  model: the YAML and JSON parsers and the Markdown parser (\<open>fromMarkdown\<close> with the
  extensions, which read the state manager), the constants \<open>frontmatterKey\<close> and
  \<open>settingKeyLookup\<close>, the translation \<open>t\<close>, \<open>parseLaneTitle\<close> (title and
  \<open>maxItems\<close>), \<open>generateInstanceId\<close> (the n-th identifier it hands out), the title
  helpers \<open>replaceBrs\<close>, \<open>dedentNewLines\<close>, \<open>removeBlockId\<close>,
  \<open>preprocessTitle\<close>, \<open>extractInlineFields\<close>, the set \<open>taskFields\<close> and the
  comparison \<open>defaultSort\<close>. A parser raises by returning \<open>Inl\<close>; \<open>parseYaml\<close>
  returns \<open>None\<close> for \<open>null\<close>.
\<close>

record env =
  parseYaml :: "string \<Rightarrow> error + (string \<times> jvalue) list option"
  jsonParse :: "string \<Rightarrow> error + (string \<times> jvalue) list"
  fromMarkdown :: "stateManager \<Rightarrow> string \<Rightarrow> error + node"
  frontmatterKey :: string
  settingKeyLookup :: "string \<Rightarrow> bool"
  t_lang :: "string \<Rightarrow> string"
  parseLaneTitle :: "string \<Rightarrow> string \<times> nat"
  generateInstanceId :: "nat \<Rightarrow> string"
  replaceBrs :: "string \<Rightarrow> string"
  dedentNewLines :: "string \<Rightarrow> string"
  removeBlockId :: "string \<Rightarrow> string"
  preprocessTitle :: "stateManager \<Rightarrow> string \<Rightarrow> string"
  extractInlineFields :: "string \<Rightarrow> inlineField list"
  taskFields :: "string \<Rightarrow> bool"
  defaultSort :: "string \<Rightarrow> string \<Rightarrow> int"

section \<open>parseMarkdown\<close>

text \<open>
  \<open>extractFrontmatter\<close>: the loop over \<open>i\<close> with its two variables. It raises when
  one of the first three characters is not a dash, returns what \<open>parseYaml\<close> makes
  of the text before the first later line that starts with three dashes, and returns
  \<open>undefined\<close> (\<open>Inr None\<close>) when the loop ends.
\<close>

function extractFrontmatter_loop ::
  "env \<Rightarrow> string \<Rightarrow> nat \<Rightarrow> int \<Rightarrow> nat \<Rightarrow> error + (string \<times> jvalue) list option" where
  "extractFrontmatter_loop e md i frontmatterStart openDashCount =
     (if i < length md then
        (if openDashCount < 3 then
           (if md ! i = CHR ''-''
            then extractFrontmatter_loop e md (i + 1) frontmatterStart (openDashCount + 1)
            else Inl (Error ''Error parsing frontmatter''))
         else
           (let fs = (if frontmatterStart < 0 then int i else frontmatterStart) in
            if md ! i = CHR ''-'' \<and> isLineBreak (charAt md (int i - 1))
               \<and> charAt md (int i + 1) = Some (CHR ''-'')
               \<and> charAt md (int i + 2) = Some (CHR ''-'')
            then parseYaml e (trim (jsSlice md fs (int i - 1)))
            else extractFrontmatter_loop e md (i + 1) fs openDashCount))
      else Inr None)"
  by pat_completeness auto
termination
  by (relation "measure (\<lambda>(e, md, i, fs, c). length md - i)") auto

definition extractFrontmatter :: "env \<Rightarrow> string \<Rightarrow> error + (string \<times> jvalue) list option" where
  "extractFrontmatter e md = extractFrontmatter_loop e md 0 (-1) 0"

text \<open>
  \<open>extractSettingsFooter\<close>: the loop runs from the last character down; the third
  argument is \<open>i + 1\<close>. \<open>Inr (Some [])\<close> is the empty object, \<open>Inr None\<close> is
  \<open>undefined\<close>.
\<close>

fun extractSettingsFooter_loop ::
  "env \<Rightarrow> string \<Rightarrow> nat \<Rightarrow> bool \<Rightarrow> nat \<Rightarrow> int \<Rightarrow> error + (string \<times> jvalue) list option" where
  "extractSettingsFooter_loop e md 0 hasEntered openTickCount settingsEnd = Inr None"
| "extractSettingsFooter_loop e md (Suc i) hasEntered openTickCount settingsEnd =
     (if \<not> hasEntered \<and> md ! i \<in> {CHR 0x60, CHR ''%'', CHR 0x0A, CHR 0x0D} then
        (if md ! i = CHR 0x60 then
           (if openTickCount + 1 = 3
            then extractSettingsFooter_loop e md i True (openTickCount + 1) (int i - 1)
            else extractSettingsFooter_loop e md i hasEntered (openTickCount + 1) settingsEnd)
         else extractSettingsFooter_loop e md i hasEntered openTickCount settingsEnd)
      else if \<not> hasEntered then Inr (Some [])
      else if md ! i = CHR 0x60 \<and> charAt md (int i - 1) = Some (CHR 0x60)
              \<and> charAt md (int i - 2) = Some (CHR 0x60) \<and> isLineBreak (charAt md (int i - 3))
      then map_sum id Some (jsonParse e (trim (jsSlice md (int i + 1) settingsEnd)))
      else extractSettingsFooter_loop e md i hasEntered openTickCount settingsEnd)"

definition extractSettingsFooter :: "env \<Rightarrow> string \<Rightarrow> error + (string \<times> jvalue) list option" where
  "extractSettingsFooter e md = extractSettingsFooter_loop e md (length md) False 0 (-1)"

record parsed =
  p_settings :: "(string \<times> jvalue) list"
  p_frontmatter :: "(string \<times> jvalue) list"
  p_ast :: node

text \<open>One round of \<open>Object.keys(mdFrontmatter).forEach\<close>.\<close>

definition frontmatterStep ::
  "env \<Rightarrow> string \<times> jvalue \<Rightarrow> (string \<times> jvalue) list \<times> (string \<times> jvalue) list
     \<Rightarrow> (string \<times> jvalue) list \<times> (string \<times> jvalue) list" where
  "frontmatterStep e = (\<lambda>(key, v) (settings, fileFrontmatter).
     if key = frontmatterKey e then
       (let val = (if v = JStr ''basic'' then JStr ''board'' else v)
        in (map_set settings key val, map_set fileFrontmatter key val))
     else if settingKeyLookup e key then (map_set settings key v, fileFrontmatter)
     else (settings, map_set fileFrontmatter key v))"

text \<open>
  \<open>parseMarkdown\<close> returns the state manager with the compiled settings beside its
  result. \<open>Object.keys\<close> of \<open>undefined\<close> or \<open>null\<close> and \<open>'children' in ast\<close> for
  a tree that is \<open>null\<close> raise a \<open>TypeError\<close>; every error is thrown on to the
  caller.
\<close>

definition parseMarkdown :: "env \<Rightarrow> stateManager \<Rightarrow> string \<Rightarrow> error + stateManager \<times> parsed" where
  "parseMarkdown e stateManager md =
     (case extractFrontmatter e md of
        Inl err \<Rightarrow> Inl err
      | Inr mdFrontmatter \<Rightarrow>
          (case extractSettingsFooter e md of
             Inl err \<Rightarrow> Inl err
           | Inr mdSettings \<Rightarrow>
               (case mdFrontmatter of
                  None \<Rightarrow> Inl (TypeError ''Cannot convert undefined or null to object'')
                | Some fm \<Rightarrow>
                    (let (settings, fileFrontmatter) =
                           fold (frontmatterStep e) fm
                             (case mdSettings of None \<Rightarrow> [] | Some s \<Rightarrow> s, []);
                         sm' = compileSettings stateManager settings
                     in case fromMarkdown e sm' md of
                          Inl err \<Rightarrow> Inl err
                        | Inr ast \<Rightarrow>
                            if ast = NullNode
                            then Inl (TypeError ''Cannot use in operator to search for children'')
                            else Inr (sm', \<lparr>p_settings = settings,
                                   p_frontmatter = fileFrontmatter,
                                   p_ast = ensureChildrenAreArrays ast 0\<rparr>)))))"

section \<open>Tree helpers (helpers/ast)\<close>

fun typeOf :: "node \<Rightarrow> string option" where
  "typeOf NullNode = None"
| "typeOf (Node ty a k) = Some ty"

fun startOffset :: "node \<Rightarrow> nat option" where
  "startOffset NullNode = None"
| "startOffset (Node ty a k) = n_start a"

fun endOffset :: "node \<Rightarrow> nat option" where
  "endOffset NullNode = None"
| "endOffset (Node ty a k) = n_end a"

text \<open>An offset is tested by its truthiness: \<open>undefined\<close> and 0 both fail.\<close>

definition offsetTruthy :: "nat option \<Rightarrow> bool" where
  "offsetTruthy off = (case off of None \<Rightarrow> False | Some n \<Rightarrow> n \<noteq> 0)"

text \<open>
  \<open>getNodeContentBoundary\<close>: \<open>Inr None\<close> is \<open>null\<close>. The type of the last child is
  read without a guard, which raises when that child is \<open>null\<close>.
\<close>

fun getNodeContentBoundary :: "node \<Rightarrow> error + (nat \<times> nat) option" where
  "getNodeContentBoundary (Node ty a (Arr (c # cs))) =
     (if \<not> offsetTruthy (startOffset c) then Inr None
      else
        (case last (c # cs) of
           NullNode \<Rightarrow> Inl (TypeError ''Cannot read properties of null (reading type)'')
         | Node lty la lk \<Rightarrow>
             if lty = ''blockid'' then
               (if cs = [] then Inr (Some (the (startOffset c), the (startOffset c)))
                else if \<not> offsetTruthy (endOffset (last (butlast (c # cs)))) then Inr None
                else Inr (Some (the (startOffset c), the (endOffset (last (butlast (c # cs)))))))
             else if \<not> offsetTruthy (n_end la) then Inr None
             else Inr (Some (the (startOffset c), the (n_end la)))))"
| "getNodeContentBoundary n = Inr None"

definition getStringFromBoundary :: "string \<Rightarrow> (nat \<times> nat) option \<Rightarrow> string" where
  "getStringFromBoundary md boundary =
     (case boundary of None \<Rightarrow> [] | Some (s, e) \<Rightarrow> jsSlice md (int s) (int e))"

text \<open>\<open>getPrevSibling\<close>: \<open>NullNode\<close> is \<open>null\<close>.\<close>

definition getPrevSibling :: "node list \<Rightarrow> nat \<Rightarrow> node" where
  "getPrevSibling children currentIndex =
     (if currentIndex \<le> 0 then NullNode
      else if currentIndex - 1 < length children then children ! (currentIndex - 1)
      else NullNode)"

text \<open>
  \<open>getNextOfType\<close>, with the state of the callback passed along (the callback of
  \<open>astToUnhydratedBoard\<close> sets a flag).
\<close>

fun getNextOfType_from ::
  "string \<Rightarrow> (node \<Rightarrow> 's \<Rightarrow> bool \<times> 's) \<Rightarrow> node list \<Rightarrow> 's \<Rightarrow> node option \<times> 's" where
  "getNextOfType_from ty shouldContinue [] st = (None, st)"
| "getNextOfType_from ty shouldContinue (child # rest) st =
     (if child = NullNode then getNextOfType_from ty shouldContinue rest st
      else if Some ty = typeOf child then (Some child, st)
      else
        (case shouldContinue child st of
           (False, st') \<Rightarrow> (None, st')
         | (True, st') \<Rightarrow> getNextOfType_from ty shouldContinue rest st'))"

definition getNextOfType ::
  "node list \<Rightarrow> nat \<Rightarrow> string \<Rightarrow> (node \<Rightarrow> 's \<Rightarrow> bool \<times> 's) \<Rightarrow> 's \<Rightarrow> node option \<times> 's" where
  "getNextOfType children currentIndex ty shouldContinue st =
     (if children = [] then (None, st)
      else getNextOfType_from ty shouldContinue (drop (currentIndex + 1) children) st)"

text \<open>
  \<open>toString\<close> of \<open>mdast-util-to-string\<close>, a library: the node's value, else its
  \<open>alt\<close> text when asked for, else the text of its children.
\<close>

fun toString :: "bool \<Rightarrow> node \<Rightarrow> string" where
  "toString includeImageAlt NullNode = []"
| "toString includeImageAlt (Node ty a k) =
     (if n_value a \<noteq> None \<and> n_value a \<noteq> Some [] then the (n_value a)
      else if includeImageAlt \<and> n_alt a \<noteq> None \<and> n_alt a \<noteq> Some [] then the (n_alt a)
      else (case k of Arr cs \<Rightarrow> concat (map (toString includeImageAlt) cs) | _ \<Rightarrow> []))"

text \<open>
  \<open>visit\<close> of \<open>unist-util-visit\<close>, a library: the nodes of a tree in pre-order, each
  with its parent. It is applied to an item that \<open>ensureChildrenAreArrays\<close> has
  repaired; a \<open>children\<close> field that is not an array holds nothing to walk, and the
  visitors of the source always let the walk go on.
\<close>

fun preorder :: "node option \<Rightarrow> node \<Rightarrow> (node \<times> node option) list" where
  "preorder parent NullNode = []"
| "preorder parent (Node ty a k) =
     (Node ty a k, parent) #
     (case k of
        Arr cs \<Rightarrow> concat (map (preorder (Some (Node ty a k))) cs)
      | _ \<Rightarrow> [])"

section \<open>Excision of marked ranges\<close>

text \<open>
  Modelled from the spec: \<open>markRangeForDeletion\<close> and \<open>executeDeletion\<close> of
  \<open>parsers/helpers/parser\<close> are called by \<open>listItemToItemData\<close> and are not among
  the source files. The spec says that a token's source range is excised from the
  visible title and that the excisions are applied after all tokens are classified; its
  example turns \<open>Buy milk #errand\<close> into \<open>Buy milk\<close>. So marking overwrites the
  range with NUL characters, which keeps the offsets of later tokens valid, and the
  excision deletes the marks and the white space left at the ends of the title.
\<close>

definition markRangeForDeletion :: "string \<Rightarrow> int \<Rightarrow> int \<Rightarrow> string" where
  "markRangeForDeletion str rangeStart rangeEnd =
     (let s = min (nat rangeStart) (length str); e = min (nat rangeEnd) (length str)
      in take s str @ replicate (e - s) (CHR 0x00) @ drop (max s e) str)"

definition executeDeletion :: "string \<Rightarrow> string" where
  "executeDeletion str = trim (filter (\<lambda>c. c \<noteq> CHR 0x00) str)"

section \<open>listItemToItemData\<close>

definition emptyMetadata :: itemMetadata where
  "emptyMetadata =
     \<lparr>dateStr = None, timeStr = None, tags = [], fileAccessor = None, fileMetadata = None,
      fileMetadataOrder = None, inlineMetadata = None\<rparr>"

fun itemChecked :: "node \<Rightarrow> bool" where
  "itemChecked NullNode = False"
| "itemChecked (Node ty a k) = (n_checked a = Some True)"

text \<open>\<open>item.checked ? item.checkChar || ' ' : ' '\<close>.\<close>

fun itemCheckChar :: "node \<Rightarrow> string" where
  "itemCheckChar NullNode = '' ''"
| "itemCheckChar (Node ty a k) =
     (if n_checked a = Some True
      then (case n_checkChar a of None \<Rightarrow> '' '' | Some c \<Rightarrow> if c = [] then '' '' else c)
      else '' '')"

text \<open>The item the source returns early for a list item without usable content.\<close>

definition emptyItemData :: "node \<Rightarrow> itemData" where
  "emptyItemData item =
     \<lparr>titleRaw = [], blockId = None, title = [], titleSearch = [], titleSearchRaw = [],
      metadata = emptyMetadata, checked = itemChecked item, checkChar = itemCheckChar item,
      projectFile = None, projectLaneId = None, projectItemId = None\<rparr>"

text \<open>
  Whether the first child of the parent has a value that starts with three backticks:
  a hashtag there is the language of a code fence, not a tag.
\<close>

fun firstChildStartsFence :: "node option \<Rightarrow> bool" where
  "firstChildStartsFence (Some (Node ty a (Arr (Node cty ca ck # cs)))) =
     (case n_value ca of
        None \<Rightarrow> False
      | Some v \<Rightarrow> take 3 v = [CHR 0x60, CHR 0x60, CHR 0x60])"
| "firstChildStartsFence parent = False"

definition valueOrEmpty :: "string option \<Rightarrow> string" where
  "valueOrEmpty v = (case v of None \<Rightarrow> [] | Some s \<Rightarrow> s)"

text \<open>The visitor of the first walk, which collects the search text.\<close>

definition searchTypes :: "string list" where
  "searchTypes = [''text'', ''wikilink'', ''embedWikilink'', ''image'', ''inlineCode'', ''code'',
     ''hashtag'']"

fun searchVisit :: "node \<times> node option \<Rightarrow> string \<Rightarrow> string" where
  "searchVisit (Node ty a k, parent) found =
     (if ty \<notin> set searchTypes then found
      else if ty = ''hashtag'' then
        (if firstChildStartsFence parent then found
         else found @ '' #'' @ valueOrEmpty (n_value a))
      else found @
        (if n_value a \<noteq> None \<and> n_value a \<noteq> Some [] then valueOrEmpty (n_value a)
         else valueOrEmpty (n_alt a)))"
| "searchVisit (NullNode, parent) found = found"

text \<open>
  The visitor of the second walk: it fills the metadata and marks the ranges to move
  out of the title. The state is the item data and the title being marked.
\<close>

definition markNode :: "bool \<Rightarrow> attrs \<Rightarrow> nat \<Rightarrow> string \<Rightarrow> string" where
  "markNode move a boundaryStart ttl =
     (if move \<and> offsetTruthy (n_start a) \<and> offsetTruthy (n_end a)
      then markRangeForDeletion ttl (int (the (n_start a)) - int boundaryStart)
             (int (the (n_end a)) - int boundaryStart)
      else ttl)"

fun metadataVisit ::
  "bool \<Rightarrow> bool \<Rightarrow> nat \<Rightarrow> node \<times> node option \<Rightarrow> itemData \<times> string \<Rightarrow> itemData \<times> string" where
  "metadataVisit moveTags moveDates boundaryStart (Node ty a k, parent) (d, ttl) =
     (if ty = ''paragraph'' then (d, ttl)
      else if ty = ''blockid'' then (d\<lparr>blockId := n_value a\<rparr>, ttl)
      else if ty = ''hashtag'' \<and> \<not> firstChildStartsFence parent then
        (d\<lparr>metadata := (metadata d)\<lparr>tags := tags (metadata d) @
              [''#'' @ (case n_value a of None \<Rightarrow> ''undefined'' | Some v \<Rightarrow> v)]\<rparr>\<rparr>,
         markNode moveTags a boundaryStart ttl)
      else if ty = ''date'' \<or> ty = ''dateLink'' then
        (d\<lparr>metadata := (metadata d)\<lparr>dateStr := n_date a\<rparr>\<rparr>,
         markNode moveDates a boundaryStart ttl)
      else if ty = ''time'' then
        (d\<lparr>metadata := (metadata d)\<lparr>timeStr := n_time a\<rparr>\<rparr>,
         markNode moveDates a boundaryStart ttl)
      else if ty = ''embedWikilink'' then
        (d\<lparr>metadata := (metadata d)\<lparr>fileAccessor := n_fileAccessor a\<rparr>\<rparr>, ttl)
      else if ty = ''wikilink'' then
        (d\<lparr>metadata := (metadata d)\<lparr>fileAccessor := n_fileAccessor a,
             fileMetadata := n_fileMetadata a, fileMetadataOrder := n_fileMetadataOrder a\<rparr>\<rparr>, ttl)
      else if ty = ''link'' \<and> n_fileAccessor a \<noteq> None then
        (d\<lparr>metadata := (metadata d)\<lparr>fileAccessor := n_fileAccessor a,
             fileMetadata := n_fileMetadata a, fileMetadataOrder := n_fileMetadataOrder a\<rparr>\<rparr>, ttl)
      else if ty = ''embedLink'' then
        (d\<lparr>metadata := (metadata d)\<lparr>fileAccessor := n_fileAccessor a\<rparr>\<rparr>, ttl)
      else (d, ttl))"
| "metadataVisit moveTags moveDates boundaryStart (NullNode, parent) (d, ttl) = (d, ttl)"

text \<open>\<open>tags.sort(defaultSort)\<close>: a stable sort by the comparison.\<close>

fun insertBy :: "('a \<Rightarrow> 'a \<Rightarrow> int) \<Rightarrow> 'a \<Rightarrow> 'a list \<Rightarrow> 'a list" where
  "insertBy cmp x [] = [x]"
| "insertBy cmp x (y # ys) = (if cmp x y \<le> 0 then x # y # ys else y # insertBy cmp x ys)"

definition sortBy :: "('a \<Rightarrow> 'a \<Rightarrow> int) \<Rightarrow> 'a list \<Rightarrow> 'a list" where
  "sortBy cmp xs = foldr (insertBy cmp) xs []"

text \<open>The inline fields found in the finished title, and their removal from it.\<close>

definition applyInlineFields :: "env \<Rightarrow> stateManager \<Rightarrow> itemData \<Rightarrow> itemData" where
  "applyInlineFields e stateManager d =
     (let firstLineEnd = indexOf (title d) (CHR 0x0A);
          inlineFields = extractInlineFields e (title d)
      in if inlineFields = [] then d
         else
           (let inlineMeta = filter (\<lambda>curr. \<not> taskFields e (field_key curr)
                    \<or> firstLineEnd \<le> 0 \<or> int (field_end curr) < firstLineEnd) inlineFields;
                d1 = d\<lparr>metadata := (metadata d)\<lparr>inlineMetadata := Some inlineMeta\<rparr>\<rparr>;
                moveTaskData = truthy (getSetting stateManager ''move-task-metadata'');
                moveMetadata = (getSetting stateManager ''inline-metadata-position'' \<noteq> JStr ''body'')
            in if moveTaskData \<or> moveMetadata then
                 d1\<lparr>title := fold (\<lambda>fld ttl.
                     if taskFields e (field_key fld) \<and> \<not> moveTaskData then ttl
                     else if \<not> taskFields e (field_key fld) \<and> \<not> moveMetadata then ttl
                     else jsSlice ttl 0 (int (field_start fld))
                          @ jsSlice ttl (int (field_end fld)) (int (length ttl)))
                   (rev inlineMeta) (title d1)\<rparr>
               else d1))"

text \<open>
  \<open>listItemToItemData\<close>. The boundary of a paragraph child is read from the unrepaired
  item, so \<open>getNodeContentBoundary\<close> can raise here; the caller catches it.
\<close>

definition childBoundary :: "bool \<Rightarrow> node \<Rightarrow> error + nat" where
  "childBoundary atStart n =
     (if typeOf n = Some ''paragraph'' then
        (case getNodeContentBoundary n of
           Inl err \<Rightarrow> Inl err
         | Inr None \<Rightarrow> Inr (the (if atStart then startOffset n else endOffset n))
         | Inr (Some (s, e)) \<Rightarrow> Inr (if atStart then s else e))
      else Inr (the (if atStart then startOffset n else endOffset n)))"

definition listItemToItemData :: "env \<Rightarrow> stateManager \<Rightarrow> string \<Rightarrow> node \<Rightarrow> error + itemData" where
  "listItemToItemData e stateManager md item =
     (let moveTags = truthy (getSetting stateManager ''move-tags'');
          moveDates = truthy (getSetting stateManager ''move-dates'')
      in case item of
           NullNode \<Rightarrow> Inr (emptyItemData item)
         | Node ty a k \<Rightarrow>
            (case k of
               Arr (c # cs) \<Rightarrow>
                 (let startNode = c; endNode = last (c # cs) in
                  if startNode = NullNode \<or> endNode = NullNode then Inr (emptyItemData item)
                  else if \<not> offsetTruthy (startOffset startNode) \<or> \<not> offsetTruthy (endOffset endNode)
                  then Inr (emptyItemData item)
                  else
                    (case childBoundary True startNode of
                       Inl err \<Rightarrow> Inl err
                     | Inr start \<Rightarrow>
                        (case childBoundary False endNode of
                           Inl err \<Rightarrow> Inl err
                         | Inr end' \<Rightarrow>
                            (let content0 = getStringFromBoundary md (Some (start, end'));
                                 itemContent =
                                   (if content0 = ''['' @ (if itemChecked item
                                         then (case n_checkChar a of None \<Rightarrow> ''undefined'' | Some ch \<Rightarrow> ch)
                                         else '' '') @ '']''
                                    then [] else content0);
                                 safeItem = ensureChildrenAreArrays item 0;
                                 titleSearch' = fold searchVisit (preorder None safeItem) [];
                                 itemData0 =
                                   \<lparr>titleRaw = removeBlockId e (dedentNewLines e (replaceBrs e itemContent)),
                                    blockId = None, title = [], titleSearch = titleSearch',
                                    titleSearchRaw = titleSearch', metadata = emptyMetadata,
                                    checked = itemChecked item, checkChar = itemCheckChar item,
                                    projectFile = None, projectLaneId = None, projectItemId = None\<rparr>;
                                 (itemData1, ttl) =
                                   fold (metadataVisit moveTags moveDates start)
                                     (preorder None safeItem) (itemData0, itemContent);
                                 itemData2 = itemData1\<lparr>title :=
                                   preprocessTitle e stateManager (dedentNewLines e (executeDeletion ttl))\<rparr>;
                                 itemData3 = applyInlineFields e stateManager itemData2
                             in Inr (itemData3\<lparr>metadata := (metadata itemData3)\<lparr>tags :=
                                      sortBy (defaultSort e) (tags (metadata itemData3))\<rparr>\<rparr>)))))
             | _ \<Rightarrow> Inr (emptyItemData item)))"

section \<open>astToUnhydratedBoard\<close>

definition isArchiveLane :: "env \<Rightarrow> node \<Rightarrow> node list \<Rightarrow> nat \<Rightarrow> bool" where
  "isArchiveLane e child children currentIndex =
     (if typeOf child \<noteq> Some ''heading'' \<or> toString False child \<noteq> t_lang e ''Archive''
      then False
      else typeOf (getPrevSibling children currentIndex) = Some ''thematicBreak'')"

text \<open>
  The callback that decides whether the look-ahead for a list goes on; the state is
  \<open>shouldMarkItemsComplete\<close>.
\<close>

definition shouldContinue :: "env \<Rightarrow> node \<Rightarrow> bool \<Rightarrow> bool \<times> bool" where
  "shouldContinue e child flag =
     (if typeOf child = Some ''heading'' then (False, flag)
      else if typeOf child = Some ''paragraph'' then
        (let childStr = toString True (ensureChildrenAreArrays child 0) in
         if take (length ''%% kanban:settings'') childStr = ''%% kanban:settings'' then (False, flag)
         else if childStr = t_lang e ''Complete'' then (True, True)
         else (True, flag))
      else (True, flag))"

text \<open>
  The items of a list. Identifiers come from \<open>generateInstanceId\<close>, the counter says
  how many were handed out. For an archived item the identifier is taken before the
  data is computed, for a lane's item after it; an item whose data raises is dropped.
\<close>

fun listChildrenOf :: "node \<Rightarrow> node list" where
  "listChildrenOf (Node ty a (Arr cs)) = cs"
| "listChildrenOf n = []"

fun archiveItems :: "env \<Rightarrow> stateManager \<Rightarrow> string \<Rightarrow> node list \<Rightarrow> nat \<Rightarrow> item list \<times> nat" where
  "archiveItems e sm md [] n = ([], n)"
| "archiveItems e sm md (listItem # rest) n =
     (if listItem = NullNode then archiveItems e sm md rest n
      else
        (case listItemToItemData e sm md listItem of
           Inl err \<Rightarrow> archiveItems e sm md rest (n + 1)
         | Inr d \<Rightarrow>
             (let (its, n') = archiveItems e sm md rest (n + 1)
              in (\<lparr>item_id = generateInstanceId e n, item_data = d\<rparr> # its, n'))))"

fun laneItemsOf :: "env \<Rightarrow> stateManager \<Rightarrow> string \<Rightarrow> node list \<Rightarrow> nat \<Rightarrow> item list \<times> nat" where
  "laneItemsOf e sm md [] n = ([], n)"
| "laneItemsOf e sm md (listItem # rest) n =
     (if listItem = NullNode then laneItemsOf e sm md rest n
      else
        (case listItemToItemData e sm md listItem of
           Inl err \<Rightarrow> laneItemsOf e sm md rest n
         | Inr d \<Rightarrow>
             (let (its, n') = laneItemsOf e sm md rest (n + 1)
              in (\<lparr>item_id = generateInstanceId e n, item_data = d\<rparr> # its, n'))))"

definition newLane :: "env \<Rightarrow> string \<Rightarrow> bool \<Rightarrow> item list \<Rightarrow> string \<Rightarrow> lane" where
  "newLane e ttl flag its ident =
     \<lparr>lane_id = ident,
      lane_data = \<lparr>lane_title = fst (parseLaneTitle e ttl), shouldMarkItemsComplete = flag,
        maxItems = snd (parseLaneTitle e ttl)\<rparr>,
      lane_children = its\<rparr>"

text \<open>
  One round of \<open>root.children.forEach\<close>: the state is the lanes, the archive and the
  identifier counter. An error raised inside the round is caught and the child skipped.
\<close>

definition processChild ::
  "env \<Rightarrow> stateManager \<Rightarrow> string \<Rightarrow> node list \<Rightarrow> nat \<times> node
     \<Rightarrow> lane list \<times> item list \<times> nat \<Rightarrow> lane list \<times> item list \<times> nat" where
  "processChild e sm md children = (\<lambda>(index, child) (lanes, archv, n).
     if child = NullNode then (lanes, archv, n)
     else
       (let safeChild = ensureChildrenAreArrays child 0 in
        if typeOf safeChild = Some ''heading'' then
          (let isArchive = isArchiveLane e safeChild children index in
           case getNodeContentBoundary safeChild of
             Inl err \<Rightarrow> (lanes, archv, n)
           | Inr None \<Rightarrow> (lanes, archv, n)
           | Inr (Some headingBoundary) \<Rightarrow>
               (let ttl = getStringFromBoundary md (Some headingBoundary);
                    (lst, flag) = getNextOfType children index ''list'' (shouldContinue e) False
                in case lst of
                     None \<Rightarrow> (lanes @ [newLane e ttl flag [] (generateInstanceId e n)], archv, n + 1)
                   | Some listNode \<Rightarrow>
                       if isArchive then
                         (let (its, n') = archiveItems e sm md (listChildrenOf listNode) n
                          in (lanes, archv @ its, n'))
                       else if listChildrenOf listNode = [] then
                         (lanes @ [newLane e ttl flag [] (generateInstanceId e n)], archv, n + 1)
                       else
                         (let (its, n') = laneItemsOf e sm md (listChildrenOf listNode) n
                          in (lanes @ [newLane e ttl flag its (generateInstanceId e n')],
                              archv, n' + 1))))
        else (lanes, archv, n)))"

definition invalidRootBoard :: "env \<Rightarrow> stateManager \<Rightarrow> board" where
  "invalidRootBoard e sm =
     \<lparr>board_id = (if path (sm_file sm) = [] then ''unknown'' else path (sm_file sm)),
      board_children = [],
      board_data = \<lparr>archive = [], settings = [(frontmatterKey e, JStr ''board'')],
        frontmatter = [], isSearching = False,
        errors = [\<lparr>description =
            ''Invalid AST structure: root.children is undefined or not an array'',
          stack = []\<rparr>]\<rparr>\<rparr>"

definition astToUnhydratedBoard ::
  "env \<Rightarrow> stateManager \<Rightarrow> (string \<times> jvalue) list \<Rightarrow> (string \<times> jvalue) list \<Rightarrow> node \<Rightarrow> string
     \<Rightarrow> board" where
  "astToUnhydratedBoard e sm settings' frontmatter' root md =
     (case root of
        Node ty a (Arr children) \<Rightarrow>
          (let (lanes, archv, n) =
                 fold (processChild e sm md children) (enumerate 0 children) ([], [], 0)
           in \<lparr>board_id = path (sm_file sm), board_children = lanes,
               board_data = \<lparr>archive = archv, settings = settings', frontmatter = frontmatter',
                 isSearching = False, errors = []\<rparr>\<rparr>)
      | _ \<Rightarrow> invalidRootBoard e sm)"

section \<open>Parsing and scanning project files (ProjectStateManager.ts)\<close>

definition errorMessage :: "error \<Rightarrow> string" where
  "errorMessage err = (case err of Error m \<Rightarrow> m | TypeError m \<Rightarrow> m)"

text \<open>
  The board \<open>parseProjectFile\<close> returns from its \<open>catch\<close>: no lanes, and the error's
  message in the board's own error list (the engine's stack trace is left empty).
\<close>

definition failedBoard :: "env \<Rightarrow> stateManager \<Rightarrow> error \<Rightarrow> board" where
  "failedBoard e tsm err =
     \<lparr>board_id = path (sm_file tsm), board_children = [],
      board_data = \<lparr>archive = [], settings = [(frontmatterKey e, JStr ''board'')],
        frontmatter = [], isSearching = False,
        errors = [\<lparr>description = errorMessage err, stack = []\<rparr>]\<rparr>\<rparr>"

text \<open>\<open>if (!ast.children) ast.children = []\<close> and the same for a value that is no array.\<close>

fun fixRootChildren :: "node \<Rightarrow> node" where
  "fixRootChildren (Node ty a (Arr cs)) = Node ty a (Arr cs)"
| "fixRootChildren (Node ty a k) = Node ty a (Arr [])"
| "fixRootChildren NullNode = NullNode"

text \<open>
  \<open>parseProjectFile\<close> catches whatever \<open>parseMarkdown\<close> or the checks after it
  throw, so it always returns a board.
\<close>

definition parseProjectFile :: "env \<Rightarrow> stateManager \<Rightarrow> string \<Rightarrow> board" where
  "parseProjectFile e tempStateManager content =
     (case parseMarkdown e tempStateManager content of
        Inl err \<Rightarrow> failedBoard e tempStateManager err
      | Inr (sm', res) \<Rightarrow>
          (case sanitizeAST (fixRootChildren (p_ast res)) of
             Node ty a (Arr cs) \<Rightarrow>
               astToUnhydratedBoard e (compileSettings sm' (p_settings res)) (p_settings res)
                 (p_frontmatter res) (Node ty a (Arr cs)) content
           | _ \<Rightarrow> failedBoard e tempStateManager (Error ''Sanitized AST is invalid'')))"

text \<open>
  A markdown file of the vault as the scan sees it: the file, whether the metadata cache
  has a \<open>project\<close> entry in its frontmatter, and what \<open>vault.read\<close> yields (a
  rejected read is \<open>Inl\<close>).
\<close>

record vaultFile =
  vf_file :: tfile
  vf_project :: bool
  vf_read :: "error + string"

record managerState =
  ps_projectFiles :: projectFiles
  ps_aggregatedBoard :: board
  ps_errors :: "(tfile \<times> error) list"

definition initialState :: "string \<Rightarrow> managerState" where
  "initialState key =
     \<lparr>ps_projectFiles = [], ps_aggregatedBoard = initialAggregatedBoard key, ps_errors = []\<rparr>"

text \<open>
  One round of the loop over the project files, inside its \<open>try\<close>. A board returned
  by \<open>parseProjectFile\<close> always has its list of lanes, so the check that throws
  \<open>Invalid board structure\<close> has no branch.
\<close>

definition scanStep ::
  "env \<Rightarrow> (string \<Rightarrow> jvalue) \<Rightarrow> vaultFile \<Rightarrow> projectFiles \<times> (tfile \<times> error) list
     \<Rightarrow> projectFiles \<times> (tfile \<times> error) list" where
  "scanStep e getGlobalSettings vf = (\<lambda>(newProjectFiles, newErrors).
     case vf_read vf of
       Inl err \<Rightarrow> (newProjectFiles, newErrors @ [(vf_file vf, err)])
     | Inr content \<Rightarrow>
         if content = [] \<or> length (trim content) = 0 then (newProjectFiles, newErrors)
         else
           (let tempStateManager = createTempStateManager getGlobalSettings (vf_file vf);
                b = parseProjectFile e tempStateManager content
            in (map_set newProjectFiles (path (vf_file vf))
                  \<lparr>file = vf_file vf, board = b, originalContent = content\<rparr>,
                newErrors)))"

text \<open>
  The body of one \<open>scanProjectFiles\<close> (the wait for a scan in flight is left out):
  filter the candidates, parse each, replace the aggregated board's error list when
  there are new errors, aggregate.
\<close>

definition scanProjectFiles ::
  "env \<Rightarrow> (string \<Rightarrow> jvalue) \<Rightarrow> vaultFile list \<Rightarrow> managerState \<Rightarrow> managerState" where
  "scanProjectFiles e getGlobalSettings markdownFiles st =
     (let candidates = filter vf_project markdownFiles;
          (newProjectFiles, newErrors) = fold (scanStep e getGlobalSettings) candidates ([], []);
          withErrors =
            (if newErrors \<noteq> [] then
               (ps_aggregatedBoard st)\<lparr>board_data := (board_data (ps_aggregatedBoard st))\<lparr>errors :=
                  map (\<lambda>(f, err).
                    \<lparr>description = ''Error parsing '' @ path f @ '': '' @ errorMessage err,
                     stack = []\<rparr>) newErrors\<rparr>\<rparr>
             else ps_aggregatedBoard st)
      in \<lparr>ps_projectFiles = newProjectFiles,
          ps_aggregatedBoard = aggregateBoards newProjectFiles withErrors,
          ps_errors = newErrors\<rparr>)"

text \<open>
  A line in the text that starts with three dashes, as \<open>extractFrontmatter\<close> looks
  for it to close the frontmatter block: a dash at position \<open>i\<close> after a line
  break, followed by two more dashes.
\<close>

definition closingAt :: "string \<Rightarrow> nat \<Rightarrow> bool" where
  "closingAt md i = (3 \<le> i \<and> i < length md \<and> md ! i = CHR ''-'' \<and> isLineBreak (charAt md (int i - 1))
     \<and> charAt md (int i + 1) = Some (CHR ''-'') \<and> charAt md (int i + 2) = Some (CHR ''-''))"

section \<open>Which headings start a lane\<close>

text \<open>
  The cases of the board builder, stated on the list of siblings itself and not through
  \<open>getPrevSibling\<close>, \<open>getNextOfType\<close> or the callback of the look-ahead. A
  heading with content is a heading for which \<open>getNodeContentBoundary\<close> finds a
  boundary. A settings paragraph is a paragraph whose text starts with
  \<open>%% kanban:settings\<close>; a heading or a settings paragraph ends the section of the
  heading before it. The following list of the sibling at index \<open>i\<close> is the first
  list among the later siblings, when no sibling between the two ends the section. The
  sibling at index \<open>i\<close> is preceded by a break when the sibling at index
  \<open>i - 1\<close> is a thematic break. An archive heading has the text
  \<open>t('Archive')\<close> and is preceded by a break.
\<close>

definition headingWithContent :: "node \<Rightarrow> bool" where
  "headingWithContent c = (c \<noteq> NullNode \<and> typeOf (ensureChildrenAreArrays c 0) = Some ''heading''
     \<and> (case getNodeContentBoundary (ensureChildrenAreArrays c 0) of
           Inl err \<Rightarrow> False | Inr None \<Rightarrow> False | Inr (Some b) \<Rightarrow> True))"

definition headingText :: "string \<Rightarrow> node \<Rightarrow> string" where
  "headingText md c =
     getStringFromBoundary md
       (case getNodeContentBoundary (ensureChildrenAreArrays c 0) of Inl err \<Rightarrow> None | Inr b \<Rightarrow> b)"

definition settingsParagraph :: "node \<Rightarrow> bool" where
  "settingsParagraph c = (typeOf c = Some ''paragraph''
     \<and> take (length ''%% kanban:settings'') (toString True (ensureChildrenAreArrays c 0))
         = ''%% kanban:settings'')"

definition endsSection :: "node \<Rightarrow> bool" where
  "endsSection c = (typeOf c = Some ''heading'' \<or> settingsParagraph c)"

definition followingList :: "node list \<Rightarrow> nat \<Rightarrow> node option" where
  "followingList children i =
     (case find (\<lambda>c. typeOf c = Some ''list'' \<or> endsSection c) (drop (Suc i) children) of
        None \<Rightarrow> None
      | Some c \<Rightarrow> if typeOf c = Some ''list'' then Some c else None)"

definition precededByBreak :: "node list \<Rightarrow> nat \<Rightarrow> bool" where
  "precededByBreak children i =
     (0 < i \<and> i \<le> length children \<and> typeOf (children ! (i - 1)) = Some ''thematicBreak'')"

definition archiveHeading :: "env \<Rightarrow> node list \<Rightarrow> nat \<times> node \<Rightarrow> bool" where
  "archiveHeading e children = (\<lambda>(i, c).
     toString False (ensureChildrenAreArrays c 0) = t_lang e ''Archive''
     \<and> precededByBreak children i)"

definition routesToArchive :: "env \<Rightarrow> node list \<Rightarrow> nat \<times> node \<Rightarrow> bool" where
  "routesToArchive e children = (\<lambda>(i, c).
     headingWithContent c \<and> archiveHeading e children (i, c) \<and> followingList children i \<noteq> None)"

definition startsLane :: "env \<Rightarrow> node list \<Rightarrow> nat \<times> node \<Rightarrow> bool" where
  "startsLane e children = (\<lambda>(i, c).
     headingWithContent c \<and> \<not> (archiveHeading e children (i, c) \<and> followingList children i \<noteq> None))"

fun itemDatas :: "env \<Rightarrow> stateManager \<Rightarrow> string \<Rightarrow> node list \<Rightarrow> itemData list" where
  "itemDatas e sm md [] = []"
| "itemDatas e sm md (listItem # rest) =
     (if listItem = NullNode then itemDatas e sm md rest
      else (case listItemToItemData e sm md listItem of
              Inl err \<Rightarrow> itemDatas e sm md rest
            | Inr d \<Rightarrow> d # itemDatas e sm md rest))"

text \<open>The data of the items of the list that follows a heading.\<close>

definition followingItems :: "env \<Rightarrow> stateManager \<Rightarrow> string \<Rightarrow> node list \<Rightarrow> nat \<times> node \<Rightarrow> itemData list" where
  "followingItems e sm md children = (\<lambda>(i, c).
     case followingList children i of None \<Rightarrow> [] | Some l \<Rightarrow> itemDatas e sm md (listChildrenOf l))"

section \<open>What one candidate document contributes to a scan\<close>

text \<open>
  Names for the cases of \<open>scanProjectFiles\<close>: the guard
  \<open>!content || content.trim().length === 0\<close>, a read that succeeds and what it
  returns, the entry the scan stores for a document, and the aggregated lanes that entry
  turns into.
\<close>

definition blankContent :: "string \<Rightarrow> bool" where
  "blankContent content = (content = [] \<or> length (trim content) = 0)"

definition readable :: "vaultFile \<Rightarrow> bool" where
  "readable vf = (case vf_read vf of Inl err \<Rightarrow> False | Inr content \<Rightarrow> True)"

definition contentOf :: "vaultFile \<Rightarrow> string" where
  "contentOf vf = (case vf_read vf of Inl err \<Rightarrow> [] | Inr content \<Rightarrow> content)"

definition projectFileOf :: "env \<Rightarrow> (string \<Rightarrow> jvalue) \<Rightarrow> tfile \<Rightarrow> string \<Rightarrow> projectFile" where
  "projectFileOf e getGlobalSettings f content =
     \<lparr>file = f, board = parseProjectFile e (createTempStateManager getGlobalSettings f) content,
      originalContent = content\<rparr>"

definition lanesOfDoc :: "env \<Rightarrow> (string \<Rightarrow> jvalue) \<Rightarrow> vaultFile \<Rightarrow> lane list" where
  "lanesOfDoc e g vf =
     map (aggregateLane (path (vf_file vf)) (projectFileOf e g (vf_file vf) (contentOf vf)))
       (enumerate 0 (board_children (board (projectFileOf e g (vf_file vf) (contentOf vf)))))"

section \<open>Edits of one aggregated lane\<close>



definition withLaneChildren :: "string \<Rightarrow> item list \<Rightarrow> lane \<Rightarrow> lane" where
  "withLaneChildren laneId items al = (if lane_id al = laneId then al\<lparr>lane_children := items\<rparr> else al)"







section \<open>Sample inputs\<close>

definition sampleData :: "string \<Rightarrow> string \<Rightarrow> itemData" where
  "sampleData c t =
     \<lparr>titleRaw = t, blockId = None, title = t, titleSearch = t, titleSearchRaw = t,
      metadata = \<lparr>dateStr = None, timeStr = None, tags = [], fileAccessor = None,
        fileMetadata = None, fileMetadataOrder = None, inlineMetadata = None\<rparr>,
      checked = False, checkChar = c, projectFile = None, projectLaneId = None,
      projectItemId = None\<rparr>"

definition pending_item :: item where
  "pending_item = \<lparr>item_id = ''i1'', item_data = sampleData '' '' ''Buy milk''\<rparr>"

definition sampleBoardData :: boardData where
  "sampleBoardData =
     \<lparr>archive = [], settings = [(''kanban-plugin'', JStr ''board'')], frontmatter = [],
      isSearching = False, errors = []\<rparr>"

definition sampleLane :: "string \<Rightarrow> string \<Rightarrow> item list \<Rightarrow> lane" where
  "sampleLane i t its =
     \<lparr>lane_id = i,
      lane_data = \<lparr>lane_title = t, shouldMarkItemsComplete = False, maxItems = 0\<rparr>,
      lane_children = its\<rparr>"

definition sampleFile :: "string \<Rightarrow> string \<Rightarrow> lane list \<Rightarrow> string \<times> projectFile" where
  "sampleFile p b ls =
     (p, \<lparr>file = \<lparr>path = p, basename = b\<rparr>,
          board = \<lparr>board_id = p, board_children = ls, board_data = sampleBoardData\<rparr>,
          originalContent = []\<rparr>)"

text \<open>Two project files: \<open>A.md\<close> with one lane of three items, \<open>B.md\<close> with one lane of one.\<close>

definition item3 :: item where
  "item3 = \<lparr>item_id = ''item3'', item_data = sampleData '' '' ''Call Ada''\<rparr>"

definition lane1 :: lane where
  "lane1 = sampleLane ''lane1'' ''Todo''
     [\<lparr>item_id = ''item1'', item_data = sampleData '' '' ''Buy milk''\<rparr>,
      \<lparr>item_id = ''item2'', item_data = sampleData ''/'' ''Write notes''\<rparr>,
      item3]"

definition laneB :: lane where
  "laneB = sampleLane ''laneB'' ''Later''
     [\<lparr>item_id = ''itemB'', item_data = sampleData '' '' ''Read''\<rparr>]"

definition sampleFiles :: projectFiles where
  "sampleFiles = [sampleFile ''A.md'' ''A'' [lane1], sampleFile ''B.md'' ''B'' [laneB]]"

text \<open>A project file whose only lane has an identifier that ends in a colon.\<close>

definition colonFiles :: projectFiles where
  "colonFiles = [sampleFile ''A.md'' ''A'' [sampleLane ''l:'' ''Todo''
     [\<lparr>item_id = ''i'', item_data = sampleData '' '' ''Buy milk''\<rparr>]]]"

text \<open>A project file whose two lanes carry the same identifier.\<close>

definition dupFiles :: projectFiles where
  "dupFiles = [sampleFile ''A.md'' ''A''
     [sampleLane ''l'' ''Todo'' [\<lparr>item_id = ''i1'', item_data = sampleData '' '' ''Buy milk''\<rparr>],
      sampleLane ''l'' ''Later'' [\<lparr>item_id = ''i2'', item_data = sampleData '' '' ''Read''\<rparr>]]]"

text \<open>A board whose only lane holds four items \<open>a\<close>, \<open>b\<close>, \<open>c\<close>, \<open>d\<close>.\<close>

definition fourItemBoard :: board where
  "fourItemBoard =
     \<lparr>board_id = ''board'',
      board_children = [sampleLane ''lane1'' ''Todo''
        [\<lparr>item_id = ''a'', item_data = sampleData '' '' ''a''\<rparr>,
         \<lparr>item_id = ''b'', item_data = sampleData '' '' ''b''\<rparr>,
         \<lparr>item_id = ''c'', item_data = sampleData '' '' ''c''\<rparr>,
         \<lparr>item_id = ''d'', item_data = sampleData '' '' ''d''\<rparr>]],
      board_data = sampleBoardData\<rparr>"

text \<open>
  Stand-ins for the collaborators, used where a theorem needs a concrete environment:
  English texts, titles taken as they are, no inline fields, identifiers \<open>id0\<close>,
  \<open>id1\<close>, ...
\<close>

definition noAttrs :: attrs where
  "noAttrs =
     \<lparr>n_value = None, n_alt = None, n_start = None, n_end = None, n_checked = None,
      n_checkChar = None, n_date = None, n_time = None, n_fileAccessor = None,
      n_fileMetadata = None, n_fileMetadataOrder = None\<rparr>"

definition at :: "nat \<Rightarrow> nat \<Rightarrow> attrs" where
  "at s e = noAttrs\<lparr>n_start := Some s, n_end := Some e\<rparr>"

definition textNode :: "string \<Rightarrow> nat \<Rightarrow> nat \<Rightarrow> node" where
  "textNode v s e = Node ''text'' ((at s e)\<lparr>n_value := Some v\<rparr>) Absent"

definition sampleGlobals :: "bool \<Rightarrow> string \<Rightarrow> jvalue" where
  "sampleGlobals moveTags key = (if key = ''move-tags'' then JBool moveTags else JUndefined)"

definition sampleManager :: "bool \<Rightarrow> stateManager" where
  "sampleManager moveTags =
     createTempStateManager (sampleGlobals moveTags) \<lparr>path = ''A.md'', basename = ''A''\<rparr>"

text \<open>
  The list item of the line \<open>- [ ] Buy milk #errand\<close> as the Markdown parser builds
  it: an unchecked item holding a paragraph of a text and a hashtag; positions are
  character offsets into the line.
\<close>

definition buyMilkLine :: string where
  "buyMilkLine = ''- [ ] Buy milk #errand''"

definition buyMilkItem :: "nat \<Rightarrow> node" where
  "buyMilkItem off =
     Node ''listItem'' ((at off (off + 22))\<lparr>n_checked := Some False\<rparr>)
       (Arr [Node ''paragraph'' (at (off + 6) (off + 22))
          (Arr [textNode ''Buy milk '' (off + 6) (off + 15),
                Node ''hashtag'' ((at (off + 15) (off + 22))\<lparr>n_value := Some ''errand''\<rparr>)
                  (Arr [])])])"

text \<open>
  A document with frontmatter, one lane, one item and the settings block, and its tree
  (the frontmatter node, the heading, the list, and the three blocks of the settings
  footer).
\<close>

definition goodDoc :: string where
  "goodDoc = ''---\<newline>\<newline>kanban-plugin: board\<newline>\<newline>---\<newline>\<newline>## Todo\<newline>\<newline>''
     @ buyMilkLine @ ''\<newline>\<newline>\<newline>%% kanban:settings\<newline>'' @ replicate 3 (CHR 0x60)
     @ ''\<newline>{}\<newline>'' @ replicate 3 (CHR 0x60) @ ''\<newline>%%''"

definition goodRoot :: node where
  "goodRoot =
     Node ''root'' (at 0 98)
       (Arr [Node ''yaml'' ((at 0 30)\<lparr>n_value := Some ''\<newline>kanban-plugin: board\<newline>''\<rparr>) Absent,
             Node ''heading'' (at 32 39) (Arr [textNode ''Todo'' 35 39]),
             Node ''list'' (at 41 63) (Arr [buyMilkItem 41]),
             Node ''paragraph'' (at 66 84) (Arr [textNode ''%% kanban:settings'' 66 84]),
             Node ''code'' ((at 85 95)\<lparr>n_value := Some ''{}''\<rparr>) Absent,
             Node ''paragraph'' (at 96 98) (Arr [textNode ''%%'' 96 98])])"

definition sampleEnv :: env where
  "sampleEnv =
     \<lparr>parseYaml = (\<lambda>s. Inr (if s = [] then None else Some [(''kanban-plugin'', JStr ''board'')])),
      jsonParse = (\<lambda>s. Inr []),
      fromMarkdown = (\<lambda>sm md. Inr goodRoot),
      frontmatterKey = ''kanban-plugin'',
      settingKeyLookup = (\<lambda>k. False),
      t_lang = (\<lambda>s. s),
      parseLaneTitle = (\<lambda>s. (s, 0)),
      generateInstanceId = (\<lambda>n. ''id'' @ showNat n),
      replaceBrs = (\<lambda>s. s),
      dedentNewLines = (\<lambda>s. s),
      removeBlockId = (\<lambda>s. s),
      preprocessTitle = (\<lambda>sm s. s),
      extractInlineFields = (\<lambda>s. []),
      taskFields = (\<lambda>k. False),
      defaultSort = (\<lambda>a b. 0)\<rparr>"

text \<open>A document without frontmatter, an empty document, and the three as vault files.\<close>

definition bareDoc :: string where
  "bareDoc = ''## Todo\<newline>\<newline>- [ ] Buy milk\<newline>''"

definition vaultFileOf :: "string \<Rightarrow> string \<Rightarrow> string \<Rightarrow> vaultFile" where
  "vaultFileOf p b content =
     \<lparr>vf_file = \<lparr>path = p, basename = b\<rparr>, vf_project = True, vf_read = Inr content\<rparr>"

definition threeDocs :: "vaultFile list" where
  "threeDocs = [vaultFileOf ''Empty.md'' ''Empty'' [], vaultFileOf ''Bare.md'' ''Bare'' bareDoc,
     vaultFileOf ''Good.md'' ''Good'' goodDoc]"




text \<open>
  A body that ends with a thematic break and an \<open>Archive\<close> heading with no list
  after it, and a body that is a heading without text.
\<close>

definition archiveOnlyDoc :: string where
  "archiveOnlyDoc = ''***\<newline>\<newline>## Archive''"

definition archiveOnlyRoot :: node where
  "archiveOnlyRoot =
     Node ''root'' (at 0 15)
       (Arr [Node ''thematicBreak'' (at 0 3) Absent,
             Node ''heading'' (at 5 15) (Arr [textNode ''Archive'' 8 15])])"

definition emptyHeadingRoot :: node where
  "emptyHeadingRoot = Node ''root'' (at 0 2) (Arr [Node ''heading'' (at 0 2) (Arr [])])"

text \<open>
  A body with a lane, a thematic break and an \<open>Archive\<close> heading followed by a list
  of one item.
\<close>

definition archivedDoc :: string where
  "archivedDoc = ''## Todo\<newline>\<newline>***\<newline>\<newline>## Archive\<newline>\<newline>'' @ buyMilkLine"

definition archivedRoot :: node where
  "archivedRoot =
     Node ''root'' (at 0 47)
       (Arr [Node ''heading'' (at 0 7) (Arr [textNode ''Todo'' 3 7]),
             Node ''thematicBreak'' (at 9 12) Absent,
             Node ''heading'' (at 14 24) (Arr [textNode ''Archive'' 17 24]),
             Node ''list'' (at 26 48) (Arr [buyMilkItem 26])])"


text \<open>
  A body whose thematic break comes first, before a lane, so that the \<open>Archive\<close>
  heading has a break among its earlier siblings but not right before it; and a body of
  two headings and one list, which belongs to the second.
\<close>

definition breakFirstDoc :: string where
  "breakFirstDoc = ''***\<newline>\<newline>## Todo\<newline>\<newline>'' @ buyMilkLine
     @ ''\<newline>\<newline>## Archive\<newline>\<newline>'' @ buyMilkLine"

definition breakFirstRoot :: node where
  "breakFirstRoot =
     Node ''root'' (at 0 72)
       (Arr [Node ''thematicBreak'' (at 0 3) Absent,
             Node ''heading'' (at 5 12) (Arr [textNode ''Todo'' 8 12]),
             Node ''list'' (at 14 36) (Arr [buyMilkItem 14]),
             Node ''heading'' (at 38 48) (Arr [textNode ''Archive'' 41 48]),
             Node ''list'' (at 50 72) (Arr [buyMilkItem 50])])"

definition twoHeadingsDoc :: string where
  "twoHeadingsDoc = ''## A\<newline>\<newline>## B\<newline>\<newline>'' @ buyMilkLine"

definition twoHeadingsRoot :: node where
  "twoHeadingsRoot =
     Node ''root'' (at 0 34)
       (Arr [Node ''heading'' (at 0 4) (Arr [textNode ''A'' 3 4]),
             Node ''heading'' (at 6 10) (Arr [textNode ''B'' 9 10]),
             Node ''list'' (at 12 34) (Arr [buyMilkItem 12])])"






section \<open>The checkbox cycle\<close>

text \<open>
  C8. Starting from the pending character, three applications of the transition return
  to pending; the first lands on the in-progress character, the second on the done
  character (and only that state is checked). The three characters of the tri-state
  are distinct: the done character is neither blank nor slash.
\<close>

theorem checkbox_cycle:
  assumes "checkChar (item_data it) = '' ''" and "doneChar \<noteq> '' ''" and "doneChar \<noteq> ''/''"
  shows "checkChar (item_data (onCheckboxChange doneChar it)) = ''/''
       \<and> \<not> checked (item_data (onCheckboxChange doneChar it))
       \<and> checkChar (item_data (onCheckboxChange doneChar (onCheckboxChange doneChar it))) = doneChar
       \<and> checked (item_data (onCheckboxChange doneChar (onCheckboxChange doneChar it)))
       \<and> checkChar (item_data (onCheckboxChange doneChar
             (onCheckboxChange doneChar (onCheckboxChange doneChar it)))) = '' ''
       \<and> \<not> checked (item_data (onCheckboxChange doneChar
             (onCheckboxChange doneChar (onCheckboxChange doneChar it))))
       \<and> item_id (onCheckboxChange doneChar
             (onCheckboxChange doneChar (onCheckboxChange doneChar it))) = item_id it"
  using assms by (simp add: onCheckboxChange_def)


theorem checkbox_cycle_witness:
  "checkChar (item_data (onCheckboxChange ''x'' pending_item)) = ''/''
   \<and> checkChar (item_data (onCheckboxChange ''x'' (onCheckboxChange ''x'' pending_item))) = ''x''
   \<and> checkChar (item_data (onCheckboxChange ''x''
         (onCheckboxChange ''x'' (onCheckboxChange ''x'' pending_item)))) = '' ''"
proof -
  have h: "checkChar (item_data pending_item) = '' ''"
    by (simp add: pending_item_def sampleData_def)
  from checkbox_cycle [OF h, of "''x''"] show ?thesis by simp
qed

section \<open>Splitting and joining identifiers\<close>

lemma split_sep_aux_neq_Nil: "split_sep_aux acc s \<noteq> []"
  by (induction acc s rule: split_sep_aux.induct) auto

lemma join_split_aux: "join_sep (split_sep_aux acc s) = rev acc @ s"
proof (induction acc s rule: split_sep_aux.induct)
  case (1 acc)
  then show ?case by simp
next
  case (2 acc c cs)
  show ?case
  proof (cases "take 3 (c # cs) = '':::''")
    case True
    then obtain r where r: "c # cs = '':::'' @ r"
      by (metis append_take_drop_id)
    then have d: "drop 2 cs = r" by auto
    obtain x xs where sp: "split_sep_aux [] r = x # xs"
      using split_sep_aux_neq_Nil[of "[]" r] by (cases "split_sep_aux [] r") auto
    from 2(1)[OF True] d have "join_sep (split_sep_aux [] r) = r" by simp
    moreover have "split_sep_aux acc (c # cs) = rev acc # split_sep_aux [] r"
      using True d by (simp only: split_sep_aux.simps simp_thms if_True)
    ultimately show ?thesis using sp r by simp
  next
    case False
    then have "split_sep_aux acc (c # cs) = split_sep_aux (c # acc) cs"
      by (simp only: split_sep_aux.simps if_False)
    with 2(2)[OF False] show ?thesis by simp
  qed
qed

lemma split_segment:
  "okSegment p \<Longrightarrow> split_sep_aux acc (p @ '':::'' @ rest) = (rev acc @ p) # split_sep_aux [] rest"
proof (induction p arbitrary: acc)
  case Nil
  then show ?case by simp
next
  case (Cons c p)
  have nt: "take 3 ((c # p) @ '':::'' @ rest) \<noteq> '':::''"
  proof
    assume a: "take 3 ((c # p) @ '':::'' @ rest) = '':::''"
    show False
    proof (cases p)
      case Nil
      with a Cons.prems show False by (auto simp: okSegment_def endsWithColon_def)
    next
      case (Cons d q)
      note pc = this
      show False
      proof (cases q)
        case Nil
        with a pc Cons.prems show False by (auto simp: okSegment_def endsWithColon_def)
      next
        case (Cons e r)
        with a pc Cons.prems show False by (auto simp: okSegment_def)
      qed
    qed
  qed
  have ok: "okSegment p \<or> p = []"
    using Cons.prems by (cases p) (auto simp: okSegment_def endsWithColon_def)
  have okn: "okSegment []" by (simp add: okSegment_def endsWithColon_def)
  from ok okn have "okSegment p" by auto
  from Cons.IH[OF this, of "c # acc"] nt show ?case by simp
qed

section \<open>Decoding the identifiers that aggregation builds\<close>



lemma find_same_id:
  assumes "x \<in> set xs"
  shows "\<exists>y. find (\<lambda>z. f z = f x) xs = Some y \<and> f y = f x \<and> y \<in> set xs"
  using assms by (induction xs) auto

lemma find_distinct:
  assumes "x \<in> set xs" "distinct (map f xs)"
  shows "find (\<lambda>z. f z = f x) xs = Some x"
  using assms by (induction xs) (auto simp: image_iff)

lemma split_composite:
  assumes "okSegment p" "okSegment l"
  shows "split_sep (p @ '':::'' @ l @ '':::'' @ i) = p # l # split_sep_aux [] i"
proof -
  have "split_sep_aux [] (p @ '':::'' @ (l @ '':::'' @ i))
      = (rev [] @ p) # split_sep_aux [] (l @ '':::'' @ i)"
    by (rule split_segment[OF assms(1)])
  also have "split_sep_aux [] (l @ '':::'' @ i) = (rev [] @ l) # split_sep_aux [] i"
    by (rule split_segment[OF assms(2)])
  finally show ?thesis by (simp add: split_sep_def)
qed

lemma aggregated_item_cases:
  assumes "al \<in> set (aggregatedLanes pfs)" "ai \<in> set (lane_children al)"
  obtains p pf k l it where "(p, pf) \<in> set pfs" "(k, l) \<in> set (enumerate 0 (board_children (board pf)))"
    "al = aggregateLane p pf (k, l)" "it \<in> set (lane_children l)" "ai = aggregateItem p pf l k it"
  using assms by (auto simp: aggregatedLanes_def aggregateLane_def)

lemma findOriginalItem_aggregated:
  assumes wf: "wfProjectFiles pfs"
      and al: "al \<in> set (aggregatedLanes pfs)"
      and ai: "ai \<in> set (lane_children al)"
  shows "\<exists>pf l i. findOriginalItem pfs (item_id ai) = Some (pf, l, i)
          \<and> map_of pfs (path (file pf)) = Some pf
          \<and> l \<in> set (board_children (board pf)) \<and> i \<in> set (lane_children l)
          \<and> projectFile (item_data ai) = Some (file pf)
          \<and> projectLaneId (item_data ai) = Some (lane_id l)
          \<and> projectItemId (item_data ai) = Some (item_id i)"
proof -
  from al ai obtain p pf k l it where
    mem: "(p, pf) \<in> set pfs" and kl: "(k, l) \<in> set (enumerate 0 (board_children (board pf)))"
    and it: "it \<in> set (lane_children l)" and aieq: "ai = aggregateItem p pf l k it"
    by (rule aggregated_item_cases)
  from kl have lmem: "l \<in> set (board_children (board pf))"
    by (auto simp: in_set_enumerate_eq)
  from wf mem have wfp: "wfProjectFile (p, pf)" and dist: "distinct (map fst pfs)"
    by (auto simp: wfProjectFiles_def list_all_iff)
  then have pth: "path (file pf) = p" and okp: "okSegment p"
    and lanes: "list_all wfLane (board_children (board pf))"
    and dl: "distinct (map lane_id (board_children (board pf)))"
    by (auto simp: wfProjectFile_def)
  from lanes lmem have wl: "wfLane l" by (auto simp: list_all_iff)
  then have lid: "lane_id l \<noteq> []" and okl: "okSegment (lane_id l)"
    and its: "list_all wfItem (lane_children l)"
    by (auto simp: wfLane_def)
  from its it have iid: "item_id it \<noteq> []" by (auto simp: list_all_iff wfItem_def)
  have idai: "item_id ai = p @ '':::'' @ lane_id l @ '':::'' @ item_id it"
    using aieq lid iid by (simp add: aggregateItem_def laneKey_def itemKey_def)
  have sp: "split_sep (item_id ai) = p # lane_id l # split_sep_aux [] (item_id it)"
    unfolding idai using okp okl by (rule split_composite)
  have jn: "join_sep (drop 2 (split_sep (item_id ai))) = item_id it"
    using sp by (simp add: join_split_aux)
  have len: "\<not> length (split_sep (item_id ai)) < 3"
    using sp split_sep_aux_neq_Nil[of "[]" "item_id it"]
    by (cases "split_sep_aux [] (item_id it)") auto
  have mp: "map_of pfs p = Some pf" using mem dist by simp
  have fl: "find (\<lambda>z. lane_id z = lane_id l) (board_children (board pf)) = Some l"
    using lmem dl by (rule find_distinct)
  from find_same_id[OF it, of item_id] obtain i where
    fi: "find (\<lambda>z. item_id z = item_id it) (lane_children l) = Some i"
    and ii: "item_id i = item_id it" and im: "i \<in> set (lane_children l)" by blast
  have "findOriginalItem pfs (item_id ai) = Some (pf, l, i)"
    using len sp jn mp fl fi by (simp add: findOriginalItem_def Let_def)
  moreover have "projectFile (item_data ai) = Some (file pf)"
    "projectLaneId (item_data ai) = Some (lane_id l)"
    "projectItemId (item_data ai) = Some (item_id i)"
    using aieq lid iid ii by (simp_all add: aggregateItem_def laneKey_def itemKey_def)
  ultimately show ?thesis using mp pth lmem im by blast
qed

section \<open>Composite identifiers decode to their origin\<close>

text \<open>
  C10 as stated fails twice. A lane identifier without the separator but ending in a
  colon runs into the separator that follows it, \<open>split\<close> cuts one character early,
  and \<open>findOriginalItem\<close> finds no such lane. And when two lanes of a document
  carry the same identifier, the identifier of an item of the second lane leads to the
  first lane, where \<open>findOriginalItem\<close> finds no such item.
\<close>

theorem composite_id_colon_counterexample:
  "\<not> containsSep ''A.md'' \<and> \<not> containsSep ''l:''
   \<and> map (map item_id \<circ> lane_children) (aggregatedLanes colonFiles) = [[''A.md:::l::::i'']]
   \<and> split_sep ''A.md:::l::::i'' = [''A.md'', ''l'', '':i'']
   \<and> findOriginalItem colonFiles ''A.md:::l::::i'' = None
   \<and> \<not> containsSep ''l''
   \<and> map (map item_id \<circ> lane_children) (aggregatedLanes dupFiles)
       = [[''A.md:::l:::i1''], [''A.md:::l:::i2'']]
   \<and> split_sep ''A.md:::l:::i2'' = [''A.md'', ''l'', ''i2'']
   \<and> findOriginalItem dupFiles ''A.md:::l:::i2'' = None"
  by (simp add: colonFiles_def dupFiles_def sampleFile_def sampleLane_def aggregatedLanes_def
      aggregateLane_def aggregateItem_def laneKey_def itemKey_def enumerate_eq_zip
      findOriginalItem_def split_sep_def Let_def)

text \<open>
  C10, amended. The aggregated identifier is path, lane identifier and item identifier
  joined by \<open>:::\<close>. When every project file is stored under its own path (the keys
  of the map, which are distinct), no path or lane identifier contains the separator or
  ends in a colon, no lane or item identifier is empty and the lane identifiers of each
  document are distinct,
  \<open>findOriginalItem\<close> applied to the identifier of any item of the aggregated board
  returns the project file, lane and item whose path and identifiers are the ones
  aggregation recorded for that item (the item identifier may contain the separator: the
  segments from the third on are joined again). For an identifier with fewer than three
  segments \<open>findOriginalItem\<close> returns \<open>null\<close>.
\<close>

theorem composite_id_roundtrip:
  "(wfProjectFiles pfs \<and> al \<in> set (board_children (aggregateBoards pfs agg0))
      \<and> ai \<in> set (lane_children al) \<longrightarrow>
      (\<exists>pf l i. findOriginalItem pfs (item_id ai) = Some (pf, l, i)
          \<and> map_of pfs (path (file pf)) = Some pf
          \<and> l \<in> set (board_children (board pf)) \<and> i \<in> set (lane_children l)
          \<and> projectFile (item_data ai) = Some (file pf)
          \<and> projectLaneId (item_data ai) = Some (lane_id l)
          \<and> projectItemId (item_data ai) = Some (item_id i)))
   \<and> (length (split_sep s) < 3 \<longrightarrow> findOriginalItem pfs s = None)"
proof (intro conjI impI)
  assume "wfProjectFiles pfs \<and> al \<in> set (board_children (aggregateBoards pfs agg0))
      \<and> ai \<in> set (lane_children al)"
  then have "wfProjectFiles pfs" "al \<in> set (aggregatedLanes pfs)" "ai \<in> set (lane_children al)"
    by (simp_all add: aggregateBoards_def)
  then show "\<exists>pf l i. findOriginalItem pfs (item_id ai) = Some (pf, l, i)
          \<and> map_of pfs (path (file pf)) = Some pf
          \<and> l \<in> set (board_children (board pf)) \<and> i \<in> set (lane_children l)
          \<and> projectFile (item_data ai) = Some (file pf)
          \<and> projectLaneId (item_data ai) = Some (lane_id l)
          \<and> projectItemId (item_data ai) = Some (item_id i)"
    by (rule findOriginalItem_aggregated)
next
  assume "length (split_sep s) < 3"
  then show "findOriginalItem pfs s = None"
    by (simp add: findOriginalItem_def Let_def)
qed

theorem composite_id_roundtrip_witness:
  "wfProjectFiles sampleFiles
   \<and> (\<exists>pf l i. findOriginalItem sampleFiles ''A.md:::lane1:::item3'' = Some (pf, l, i)
        \<and> path (file pf) = ''A.md'' \<and> lane_id l = ''lane1'' \<and> item_id i = ''item3'')
   \<and> length (split_sep ''A.md:::lane1'') = 2
   \<and> findOriginalItem sampleFiles ''A.md:::lane1'' = None"
proof -
  let ?al = "aggregateLane ''A.md'' (snd (sampleFile ''A.md'' ''A'' [lane1])) (0, lane1)"
  let ?ai = "aggregateItem ''A.md'' (snd (sampleFile ''A.md'' ''A'' [lane1])) lane1 0 item3"
  have wf: "wfProjectFiles sampleFiles"
    by (simp add: wfProjectFiles_def wfProjectFile_def wfLane_def wfItem_def okSegment_def
        endsWithColon_def sampleFiles_def sampleFile_def lane1_def laneB_def item3_def
        sampleLane_def)
  let ?agg0 = "initialAggregatedBoard ''kanban-plugin''"
  have al: "?al \<in> set (board_children (aggregateBoards sampleFiles ?agg0))"
    by (simp add: aggregateBoards_def aggregatedLanes_def sampleFiles_def sampleFile_def
        enumerate_eq_zip)
  have ai: "?ai \<in> set (lane_children ?al)"
    by (simp add: aggregateLane_def lane1_def sampleLane_def)
  have idai: "item_id ?ai = ''A.md:::lane1:::item3''"
    by (simp add: aggregateItem_def laneKey_def itemKey_def lane1_def sampleLane_def item3_def)
  have pl: "projectLaneId (item_data ?ai) = Some ''lane1''"
    "projectItemId (item_data ?ai) = Some ''item3''"
    "projectFile (item_data ?ai) = Some \<lparr>path = ''A.md'', basename = ''A''\<rparr>"
    by (simp_all add: aggregateItem_def laneKey_def itemKey_def lane1_def sampleLane_def
        item3_def sampleFile_def)
  have two: "length (split_sep ''A.md:::lane1'') = 2"
    by (simp add: split_sep_def)
  from composite_id_roundtrip [of sampleFiles ?al ?agg0 ?ai "''A.md:::lane1''"] wf al ai two
  have "(\<exists>pf l i. findOriginalItem sampleFiles (item_id ?ai) = Some (pf, l, i)
          \<and> projectFile (item_data ?ai) = Some (file pf)
          \<and> projectLaneId (item_data ?ai) = Some (lane_id l)
          \<and> projectItemId (item_data ?ai) = Some (item_id i))"
    and none: "findOriginalItem sampleFiles ''A.md:::lane1'' = None"
    by auto
  then obtain pf l i where "findOriginalItem sampleFiles (item_id ?ai) = Some (pf, l, i)"
    "projectFile (item_data ?ai) = Some (file pf)"
    "projectLaneId (item_data ?ai) = Some (lane_id l)"
    "projectItemId (item_data ?ai) = Some (item_id i)" by blast
  with idai pl have "findOriginalItem sampleFiles ''A.md:::lane1:::item3'' = Some (pf, l, i)
        \<and> path (file pf) = ''A.md'' \<and> lane_id l = ''lane1'' \<and> item_id i = ''item3''"
    by (metis option.inject tfile.select_convs(1))
  then show ?thesis using wf two none by blast
qed

section \<open>Moves within a lane\<close>

lemma laneItems_set [simp]:
  "L < length (board_children b) \<Longrightarrow> laneItems (setLaneItems b L xs) L = xs"
  by (simp add: laneItems_def setLaneItems_def)

lemma laneItems_set_other [simp]:
  "K \<noteq> L \<Longrightarrow> laneItems (setLaneItems b L xs) K = laneItems b K"
  by (simp add: laneItems_def setLaneItems_def)

lemma length_set [simp]:
  "length (board_children (setLaneItems b L xs)) = length (board_children b)"
  by (simp add: setLaneItems_def)

lemma set_set [simp]:
  "setLaneItems (setLaneItems b L xs) L ys = setLaneItems b L ys"
  by (cases "L < length (board_children b)")
     (simp_all add: setLaneItems_def list_update_beyond not_less)

lemma move_same_lane_eq:
  assumes "L < length (board_children b)" "s < length (laneItems b L)" "d \<le> length (laneItems b L)"
  shows "moveEntity b [L, s] [L, d] =
     Some (setLaneItems b L
       (let rest = take s (laneItems b L) @ drop (Suc s) (laneItems b L);
            k = (if s < d then d - 1 else d)
        in take k rest @ [laneItems b L ! s] @ drop k rest))"
  using assms by (auto simp: Let_def)

lemma mset_move:
  assumes "s < length xs"
  shows "mset (take k (take s xs @ drop (Suc s) xs) @ [xs ! s] @ drop k (take s xs @ drop (Suc s) xs)) = mset xs"
proof -
  define r where "r = take s xs @ drop (Suc s) xs"
  have "mset (take k r @ [xs ! s] @ drop k r) = mset (take k r @ drop k r) + {#xs ! s#}"
    by (simp del: append_take_drop_id)
  also have "\<dots> = mset r + {#xs ! s#}" by simp
  also have "\<dots> = mset (take s xs @ xs ! s # drop (Suc s) xs)" by (simp add: r_def)
  also have "\<dots> = mset xs" using assms by (simp add: id_take_nth_drop[symmetric])
  finally show ?thesis by (simp add: r_def)
qed

lemma move_2_0:
  assumes "2 < length xs"
  shows "take 0 (take 2 xs @ drop 3 xs) @ [xs ! 2] @ drop 0 (take 2 xs @ drop 3 xs) = xs ! 2 # take 2 xs @ drop 3 xs"
  by simp

lemma nth_after:
  assumes "2 < length (xs::'a list)"
  shows "(xs ! 2 # take 2 xs @ drop 3 xs) ! 0 = xs ! 2"
    and "i < 2 \<Longrightarrow> (xs ! 2 # take 2 xs @ drop 3 xs) ! (Suc i) = xs ! i"
    and "2 < i \<Longrightarrow> i < length xs \<Longrightarrow> (xs ! 2 # take 2 xs @ drop 3 xs) ! i = xs ! i"
    and "length (xs ! 2 # take 2 xs @ drop 3 xs) = length xs"
  using assms by (auto simp: nth_append nth_Cons' min_def)

text \<open>
  C2 as stated fails on a lane of more than three items: moving the item at path
  \<open>[0,2]\<close> to path \<open>[0,0]\<close> shifts the two items that were ahead of it, and the
  item at index 3 keeps its position.
\<close>

theorem move_shift_counterexample:
  "map item_id (laneItems fourItemBoard 0) = [''a'', ''b'', ''c'', ''d'']
   \<and> map_option (\<lambda>b. map item_id (laneItems b 0)) (moveEntity fourItemBoard [0, 2] [0, 0])
       = Some [''c'', ''a'', ''b'', ''d'']"
  by (simp add: fourItemBoard_def sampleLane_def laneItems_def setLaneItems_def)

text \<open>
  C2, amended. A move within one lane from index \<open>s\<close> to a greater index \<open>d\<close> is
  the removal of the source followed by an insertion at \<open>d - 1\<close>, and the moved item
  ends at index \<open>d - 1\<close>. Moving the item at path \<open>[0,2]\<close> to path \<open>[0,0]\<close> places
  it first, shifts each of the two items that were ahead of it by exactly one position
  and leaves every item behind it where it was. In both cases the lane holds the same
  items with the same multiplicities (none duplicated, none lost) and nothing else in
  the board changes.
\<close>

theorem move_index_shift:
  "(L < length (board_children b) \<and> s < d \<and> d \<le> length (laneItems b L) \<longrightarrow>
      moveEntity b [L, s] [L, d]
        = Option.bind (removeEntity b [L, s]) (\<lambda>r. insertEntity r [L, d - 1] [laneItems b L ! s])
      \<and> (\<exists>b'. moveEntity b [L, s] [L, d] = Some b'
            \<and> laneItems b' L ! (d - 1) = laneItems b L ! s
            \<and> mset (laneItems b' L) = mset (laneItems b L)
            \<and> b' = setLaneItems b L (laneItems b' L)))
   \<and> (0 < length (board_children b) \<and> 2 < length (laneItems b 0) \<longrightarrow>
      (\<exists>b'. moveEntity b [0, 2] [0, 0] = Some b'
            \<and> laneItems b' 0 ! 0 = laneItems b 0 ! 2
            \<and> (\<forall>i. i < 2 \<longrightarrow> laneItems b' 0 ! Suc i = laneItems b 0 ! i)
            \<and> (\<forall>i. 2 < i \<and> i < length (laneItems b 0) \<longrightarrow> laneItems b' 0 ! i = laneItems b 0 ! i)
            \<and> length (laneItems b' 0) = length (laneItems b 0)
            \<and> mset (laneItems b' 0) = mset (laneItems b 0)
            \<and> b' = setLaneItems b 0 (laneItems b' 0)))"
proof (intro conjI impI)
  assume a: "L < length (board_children b) \<and> s < d \<and> d \<le> length (laneItems b L)"
  define xs where "xs = laneItems b L"
  define r where "r = take s xs @ drop (Suc s) xs"
  from a have L: "L < length (board_children b)" and sd: "s < d" and s: "s < length xs"
    and d: "d \<le> length xs" by (auto simp: xs_def)
  have lr: "length r = length xs - 1" using s by (simp add: r_def)
  have mv: "moveEntity b [L, s] [L, d]
      = Some (setLaneItems b L (take (d - 1) r @ [xs ! s] @ drop (d - 1) r))"
    using move_same_lane_eq[OF L, of s d] s d sd by (simp add: xs_def r_def Let_def)
  have rm: "removeEntity b [L, s] = Some (setLaneItems b L r)"
    using L s by (simp add: xs_def r_def)
  have ins: "insertEntity (setLaneItems b L r) [L, d - 1] [xs ! s]
      = Some (setLaneItems b L (take (d - 1) r @ [xs ! s] @ drop (d - 1) r))"
    using L d sd lr by simp
  show "moveEntity b [L, s] [L, d]
        = Option.bind (removeEntity b [L, s]) (\<lambda>r. insertEntity r [L, d - 1] [laneItems b L ! s])"
    using mv rm ins by (simp add: xs_def)
  have nth: "(take (d - 1) r @ [xs ! s] @ drop (d - 1) r) ! (d - 1) = xs ! s"
    using d sd lr by (simp add: nth_append)
  have ms: "mset (take (d - 1) r @ [xs ! s] @ drop (d - 1) r) = mset xs"
    unfolding r_def using s by (rule mset_move)
  show "\<exists>b'. moveEntity b [L, s] [L, d] = Some b'
            \<and> laneItems b' L ! (d - 1) = laneItems b L ! s
            \<and> mset (laneItems b' L) = mset (laneItems b L)
            \<and> b' = setLaneItems b L (laneItems b' L)"
    using mv nth ms L by (simp add: xs_def)
next
  assume a: "0 < length (board_children b) \<and> 2 < length (laneItems b 0)"
  define xs where "xs = laneItems b 0"
  from a have L: "0 < length (board_children b)" and s: "2 < length xs" by (auto simp: xs_def)
  have mv: "moveEntity b [0, 2] [0, 0] = Some (setLaneItems b 0 (xs ! 2 # take 2 xs @ drop 3 xs))"
    using move_same_lane_eq[OF L, of 2 0] s by (simp add: xs_def Let_def numeral_3_eq_3)
  have ms: "mset (xs ! 2 # take 2 xs @ drop 3 xs) = mset xs"
    using mset_move[of 2 xs 0] s by (simp add: numeral_3_eq_3)
  show "\<exists>b'. moveEntity b [0, 2] [0, 0] = Some b'
            \<and> laneItems b' 0 ! 0 = laneItems b 0 ! 2
            \<and> (\<forall>i. i < 2 \<longrightarrow> laneItems b' 0 ! Suc i = laneItems b 0 ! i)
            \<and> (\<forall>i. 2 < i \<and> i < length (laneItems b 0) \<longrightarrow> laneItems b' 0 ! i = laneItems b 0 ! i)
            \<and> length (laneItems b' 0) = length (laneItems b 0)
            \<and> mset (laneItems b' 0) = mset (laneItems b 0)
            \<and> b' = setLaneItems b 0 (laneItems b' 0)"
    using mv ms L nth_after[OF s] unfolding xs_def[symmetric]
    by (simp add: xs_def[symmetric] del: nth_Cons_Suc)
qed

theorem move_index_shift_witness:
  "moveEntity fourItemBoard [0, 1] [0, 3]
     = Option.bind (removeEntity fourItemBoard [0, 1])
         (\<lambda>r. insertEntity r [0, 2] [laneItems fourItemBoard 0 ! 1])
   \<and> map_option (\<lambda>b. map item_id (laneItems b 0)) (moveEntity fourItemBoard [0, 1] [0, 3])
       = Some [''a'', ''c'', ''b'', ''d'']
   \<and> (\<exists>b'. moveEntity fourItemBoard [0, 2] [0, 0] = Some b'
        \<and> laneItems b' 0 ! 0 = laneItems fourItemBoard 0 ! 2
        \<and> mset (laneItems b' 0) = mset (laneItems fourItemBoard 0))"
proof -
  have h1: "0 < length (board_children fourItemBoard) \<and> (1::nat) < 3
      \<and> 3 \<le> length (laneItems fourItemBoard 0)"
    by (simp add: fourItemBoard_def sampleLane_def laneItems_def)
  have h2: "0 < length (board_children fourItemBoard) \<and> 2 < length (laneItems fourItemBoard 0)"
    by (simp add: fourItemBoard_def sampleLane_def laneItems_def)
  have ev: "map_option (\<lambda>b. map item_id (laneItems b 0)) (moveEntity fourItemBoard [0, 1] [0, 3])
       = Some [''a'', ''c'', ''b'', ''d'']"
    by (simp add: fourItemBoard_def sampleLane_def laneItems_def setLaneItems_def)
  from move_index_shift [of 0 fourItemBoard 1 3] h1 h2 ev show ?thesis
    by (metis diff_Suc_1 eval_nat_numeral(3))
qed

section \<open>The repair passes establish the shape invariant\<close>









section \<open>The frontmatter block is required\<close>

declare extractFrontmatter_loop.simps [simp del]

lemma efl_end: "length md \<le> i \<Longrightarrow> extractFrontmatter_loop e md i fs c = Inr None"
  by (subst extractFrontmatter_loop.simps) simp

lemma efl_dash:
  "i < length md \<Longrightarrow> c < 3 \<Longrightarrow> md ! i = CHR ''-'' \<Longrightarrow>
   extractFrontmatter_loop e md i fs c = extractFrontmatter_loop e md (i + 1) fs (c + 1)"
  by (subst extractFrontmatter_loop.simps) simp

lemma efl_other:
  "i < length md \<Longrightarrow> c < 3 \<Longrightarrow> md ! i \<noteq> CHR ''-'' \<Longrightarrow>
   extractFrontmatter_loop e md i fs c = Inl (Error ''Error parsing frontmatter'')"
  by (subst extractFrontmatter_loop.simps) simp

lemma take3_dashes:
  "take 3 md = ''---'' \<longleftrightarrow> (3 \<le> length md \<and> md ! 0 = CHR ''-'' \<and> md ! 1 = CHR ''-'' \<and> md ! 2 = CHR ''-'')"
proof (cases md)
  case Nil
  then show ?thesis by simp
next
  case (Cons a r1)
  note c1 = this
  show ?thesis
  proof (cases r1)
    case Nil
    with c1 show ?thesis by simp
  next
    case (Cons b r2)
    note c2 = this
    show ?thesis
    proof (cases r2)
      case Nil
      with c1 c2 show ?thesis by simp
    next
      case (Cons c r3)
      with c1 c2 show ?thesis by (auto simp: numeral_2_eq_2)
    qed
  qed
qed

lemma extractFrontmatter_needs_dashes:
  assumes "take 3 md \<noteq> ''---''"
  shows "extractFrontmatter e md = Inl (Error ''Error parsing frontmatter'')
       \<or> extractFrontmatter e md = Inr None"
proof -
  let ?L = "extractFrontmatter_loop e md"
  show ?thesis
  proof (cases "0 < length md")
    case False
    then show ?thesis by (simp add: extractFrontmatter_def efl_end)
  next
    case l0: True
    show ?thesis
    proof (cases "md ! 0 = CHR ''-''")
      case False
      with l0 show ?thesis by (simp add: extractFrontmatter_def efl_other)
    next
      case d0: True
      then have s0: "extractFrontmatter e md = ?L 1 (-1) 1"
        using l0 efl_dash[of 0 md 0 e "-1"] by (simp add: extractFrontmatter_def)
      show ?thesis
      proof (cases "1 < length md")
        case False
        then show ?thesis using s0 by (simp add: efl_end)
      next
        case l1: True
        show ?thesis
        proof (cases "md ! 1 = CHR ''-''")
          case False
          with l1 s0 show ?thesis by (simp add: efl_other)
        next
          case d1: True
          then have s1: "extractFrontmatter e md = ?L 2 (-1) 2"
            using l1 s0 efl_dash[of 1 md 1 e "-1"] by (simp add: numeral_2_eq_2)
          show ?thesis
          proof (cases "2 < length md")
            case False
            then show ?thesis using s1 by (simp add: efl_end)
          next
            case l2: True
            have "md ! 2 \<noteq> CHR ''-''"
              using assms l2 d0 d1 by (auto simp: take3_dashes)
            with l2 s1 show ?thesis by (simp add: efl_other)
          qed
        qed
      qed
    qed
  qed
qed

lemma efl_closing:
  "extractFrontmatter_loop e md i fs c = Inr (Some fm) \<Longrightarrow> c \<le> i \<Longrightarrow> \<exists>j. closingAt md j"
proof (induction e md i fs c rule: extractFrontmatter_loop.induct)
  case (1 e md i fs c)
  show ?case
  proof (cases "i < length md")
    case False
    with "1.prems" show ?thesis by (simp add: efl_end)
  next
    case il: True
    show ?thesis
    proof (cases "c < 3")
      case c3: True
      show ?thesis
      proof (cases "md ! i = CHR ''-''")
        case True
        with il c3 "1.prems" have "extractFrontmatter_loop e md (i + 1) fs (c + 1) = Inr (Some fm)"
          by (simp add: efl_dash)
        from "1.IH"(1)[OF il c3 True this] "1.prems" show ?thesis by simp
      next
        case False
        with il c3 "1.prems" show ?thesis by (simp add: efl_other)
      qed
    next
      case c3: False
      define fs' where "fs' = (if fs < 0 then int i else fs)"
      show ?thesis
      proof (cases "md ! i = CHR ''-'' \<and> isLineBreak (charAt md (int i - 1))
               \<and> charAt md (int i + 1) = Some (CHR ''-'')
               \<and> charAt md (int i + 2) = Some (CHR ''-'')")
        case True
        with il c3 "1.prems" have "closingAt md i" by (simp add: closingAt_def)
        then show ?thesis ..
      next
        case False
        have "extractFrontmatter_loop e md i fs c = extractFrontmatter_loop e md (i + 1) fs' c"
          by (subst extractFrontmatter_loop.simps)
             (use il c3 False in \<open>auto simp: fs'_def Let_def\<close>)
        with "1.prems" have "extractFrontmatter_loop e md (i + 1) fs' c = Inr (Some fm)" by simp
        from "1.IH"(2)[OF il c3 fs'_def False this] "1.prems" show ?thesis by simp
      qed
    qed
  qed
qed

lemma extractFrontmatter_Some:
  assumes "extractFrontmatter e md = Inr (Some fm)"
  shows "take 3 md = ''---'' \<and> (\<exists>j. closingAt md j)"
proof -
  have "take 3 md = ''---''"
    using assms extractFrontmatter_needs_dashes[of md e] by auto
  moreover have "\<exists>j. closingAt md j"
    using assms efl_closing[of e md 0 "-1" 0 fm] by (simp add: extractFrontmatter_def)
  ultimately show ?thesis by simp
qed

lemma parseMarkdown_Inr:
  assumes "parseMarkdown e sm md = Inr r"
  shows "\<exists>fm. extractFrontmatter e md = Inr (Some fm)"
  using assms by (auto simp: parseMarkdown_def split: sum.splits option.splits)

lemma parseMarkdown_needs_frontmatter:
  assumes "\<not> (take 3 md = ''---'' \<and> (\<exists>j. closingAt md j))"
  shows "\<exists>err. parseMarkdown e sm md = Inl err"
proof (cases "parseMarkdown e sm md")
  case (Inl a)
  then show ?thesis by simp
next
  case (Inr r)
  from parseMarkdown_Inr[OF this] extractFrontmatter_Some assms show ?thesis by blast
qed

lemma parseProjectFile_failed:
  assumes "parseMarkdown e sm md = Inl err"
  shows "parseProjectFile e sm md = failedBoard e sm err"
  using assms by (simp add: parseProjectFile_def)

lemma extractFrontmatter_raises:
  assumes "take 3 md \<noteq> ''---''" and "3 \<le> length md"
  shows "extractFrontmatter e md = Inl (Error ''Error parsing frontmatter'')"
proof -
  let ?L = "extractFrontmatter_loop e md"
  from assms(2) have l0: "0 < length md" and l1: "1 < length md" and l2: "2 < length md"
    by linarith+
  show ?thesis
  proof (cases "md ! 0 = CHR ''-''")
    case False
    with l0 show ?thesis by (simp add: extractFrontmatter_def efl_other)
  next
    case d0: True
    then have s0: "extractFrontmatter e md = ?L 1 (-1) 1"
      using l0 efl_dash[of 0 md 0 e "-1"] by (simp add: extractFrontmatter_def)
    show ?thesis
    proof (cases "md ! 1 = CHR ''-''")
      case False
      with l1 s0 show ?thesis by (simp add: efl_other)
    next
      case d1: True
      then have s1: "extractFrontmatter e md = ?L 2 (-1) 2"
        using l1 s0 efl_dash[of 1 md 1 e "-1"] by (simp add: numeral_2_eq_2)
      have "md ! 2 \<noteq> CHR ''-''"
        using assms d0 d1 by (auto simp: take3_dashes)
      with l2 s1 show ?thesis by (simp add: efl_other)
    qed
  qed
qed

lemma failedBoard_shape:
  "board_children (failedBoard e sm err) = []
   \<and> length (errors (board_data (failedBoard e sm err))) = 1"
  by (simp add: failedBoard_def)

text \<open>
  C9 as stated fails: no document without a leading frontmatter block parses. The
  sample is a heading and a checkbox item with nothing before them.
\<close>

theorem frontmatter_optional_counterexample:
  "\<not> (\<exists>e sm md r. \<not> (take 3 md = ''---'' \<and> (\<exists>j. closingAt md j)) \<and> parseMarkdown e sm md = Inr r)
   \<and> parseMarkdown sampleEnv (sampleManager True) bareDoc = Inl (Error ''Error parsing frontmatter'')
   \<and> board_children (parseProjectFile sampleEnv (sampleManager True) bareDoc) = []"
proof (intro conjI)
  show "\<not> (\<exists>e sm md r. \<not> (take 3 md = ''---'' \<and> (\<exists>j. closingAt md j)) \<and> parseMarkdown e sm md = Inr r)"
  proof (rule notI, elim exE conjE)
    fix e sm md r
    assume n: "\<not> (take 3 md = ''---'' \<and> (\<exists>j. closingAt md j))"
      and p: "parseMarkdown e sm md = Inr r"
    from parseMarkdown_needs_frontmatter[OF n, of e sm] p show False by auto
  qed
  have b: "take 3 bareDoc \<noteq> ''---''" "3 \<le> length bareDoc"
    by (simp_all add: bareDoc_def)
  show p: "parseMarkdown sampleEnv (sampleManager True) bareDoc = Inl (Error ''Error parsing frontmatter'')"
    using extractFrontmatter_raises[OF b] by (simp add: parseMarkdown_def)
  show "board_children (parseProjectFile sampleEnv (sampleManager True) bareDoc) = []"
    using parseProjectFile_failed[OF p] by (simp add: failedBoard_def)
qed

text \<open>
  C9, amended. The leading frontmatter block is required. Whenever \<open>parseMarkdown\<close>
  returns a result, the text begins with three dashes and has a later line that starts
  with three dashes. For every other text \<open>parseMarkdown\<close> raises, and
  \<open>parseProjectFile\<close> turns the error into a board without lanes that carries one
  error entry; when one of the first three characters is not a dash the error is
  \<open>Error parsing frontmatter\<close>.
\<close>

theorem frontmatter_required:
  "(parseMarkdown e sm md = Inr r \<longrightarrow> take 3 md = ''---'' \<and> (\<exists>j. closingAt md j))
   \<and> (\<not> (take 3 md = ''---'' \<and> (\<exists>j. closingAt md j)) \<longrightarrow>
        (\<exists>err. parseMarkdown e sm md = Inl err \<and> parseProjectFile e sm md = failedBoard e sm err)
        \<and> board_children (parseProjectFile e sm md) = []
        \<and> length (errors (board_data (parseProjectFile e sm md))) = 1)
   \<and> (take 3 md \<noteq> ''---'' \<and> 3 \<le> length md \<longrightarrow>
        parseMarkdown e sm md = Inl (Error ''Error parsing frontmatter''))"
proof (intro conjI impI)
  assume "parseMarkdown e sm md = Inr r"
  from parseMarkdown_Inr[OF this] obtain fm where "extractFrontmatter e md = Inr (Some fm)" ..
  from extractFrontmatter_Some[OF this]
  show "take 3 md = ''---''" and "\<exists>j. closingAt md j" by simp_all
next
  assume a: "\<not> (take 3 md = ''---'' \<and> (\<exists>j. closingAt md j))"
  from parseMarkdown_needs_frontmatter[OF a] obtain err where
    err: "parseMarkdown e sm md = Inl err" ..
  then have pf: "parseProjectFile e sm md = failedBoard e sm err"
    by (rule parseProjectFile_failed)
  from err pf show "\<exists>err. parseMarkdown e sm md = Inl err \<and> parseProjectFile e sm md = failedBoard e sm err"
    by blast
  from pf failedBoard_shape[of e sm err]
  show "board_children (parseProjectFile e sm md) = []"
    and "length (errors (board_data (parseProjectFile e sm md))) = 1" by simp_all
next
  assume "take 3 md \<noteq> ''---'' \<and> 3 \<le> length md"
  then have "extractFrontmatter e md = Inl (Error ''Error parsing frontmatter'')"
    using extractFrontmatter_raises by blast
  then show "parseMarkdown e sm md = Inl (Error ''Error parsing frontmatter'')"
    by (simp add: parseMarkdown_def)
qed

theorem frontmatter_required_witness:
  "take 3 bareDoc \<noteq> ''---'' \<and> 3 \<le> length bareDoc
   \<and> parseMarkdown sampleEnv (sampleManager False) bareDoc = Inl (Error ''Error parsing frontmatter'')
   \<and> board_children (parseProjectFile sampleEnv (sampleManager False) bareDoc) = []
   \<and> length (errors (board_data (parseProjectFile sampleEnv (sampleManager False) bareDoc))) = 1
   \<and> (\<exists>r. parseMarkdown sampleEnv (sampleManager False) goodDoc = Inr r)
   \<and> take 3 goodDoc = ''---'' \<and> (\<exists>j. closingAt goodDoc j)"
proof -
  have b: "take 3 bareDoc \<noteq> ''---''" "3 \<le> length bareDoc"
    by (simp_all add: bareDoc_def)
  have "case parseMarkdown sampleEnv (sampleManager False) goodDoc of
          Inl err \<Rightarrow> False | Inr r \<Rightarrow> True"
    by code_simp
  then have g: "\<exists>r. parseMarkdown sampleEnv (sampleManager False) goodDoc = Inr r"
    by (cases "parseMarkdown sampleEnv (sampleManager False) goodDoc") simp_all
  then obtain r where r: "parseMarkdown sampleEnv (sampleManager False) goodDoc = Inr r" ..
  from frontmatter_required [of sampleEnv "sampleManager False" bareDoc]
       frontmatter_required [of sampleEnv "sampleManager False" goodDoc r] b r g
  show ?thesis by blast
qed

section \<open>Tag extraction\<close>

lemma jsSlice_middle:
  assumes "a \<le> b" "b \<le> length s"
  shows "jsSlice (pre @ s @ post) (int (length pre + a)) (int (length pre + b)) = take (b - a) (drop a s)"
proof -
  define n where "n = int (length (pre @ s @ post))"
  have a': "(if int (length pre + a) < 0 then max (n + int (length pre + a)) 0 else min (int (length pre + a)) n)
      = int (length pre + a)"
    using assms by (simp add: n_def)
  have b': "(if int (length pre + b) < 0 then max (n + int (length pre + b)) 0 else min (int (length pre + b)) n)
      = int (length pre + b)"
    using assms by (simp add: n_def)
  have d: "nat (int (length pre + b) - int (length pre + a)) = b - a" using assms by simp
  have "nat (int (length pre + a)) = length pre + a" by (rule nat_int)
  then have dr: "drop (nat (int (length pre + a))) (pre @ s @ post) = drop a s @ post"
    using assms by (simp only: drop_append) simp
  have tk: "take (b - a) (drop a s @ post) = take (b - a) (drop a s)" using assms by simp
  show ?thesis
    unfolding jsSlice_def Let_def n_def[symmetric] a' b' d dr tk ..
qed

lemma buyMilk_content:
  "getStringFromBoundary (pre @ buyMilkLine @ post) (Some (length pre + 6, length pre + 22)) = ''Buy milk #errand''"
  using jsSlice_middle[of 6 22 buyMilkLine pre post]
  by (simp add: getStringFromBoundary_def buyMilkLine_def)

lemma buyMilk_ensure: "ensureChildrenAreArrays (buyMilkItem off) 0 = buyMilkItem off"
  by (simp add: buyMilkItem_def textNode_def)

lemma applyInlineFields_none:
  "extractInlineFields e (title d) = [] \<Longrightarrow> applyInlineFields e sm d = d"
  by (simp add: applyInlineFields_def Let_def)

text \<open>
  C7. The list item of the line \<open>- [ ] Buy milk #errand\<close>, anywhere in a document:
  its tag list is \<open>[#errand]\<close> whether or not tags are moved, and its title is
  \<open>Buy milk\<close> when the move-tags setting is on and \<open>Buy milk #errand\<close> when it is
  off. The title helpers that are not among the sources are parameters; they are taken
  to leave these two titles as they are (no line to dedent, nothing for the
  post-processing hook to rewrite, no inline field).
\<close>

theorem tag_extraction:
  assumes hooks: "dedentNewLines e ''Buy milk'' = ''Buy milk''"
      "dedentNewLines e ''Buy milk #errand'' = ''Buy milk #errand''"
      "preprocessTitle e sm ''Buy milk'' = ''Buy milk''"
      "preprocessTitle e sm ''Buy milk #errand'' = ''Buy milk #errand''"
      "extractInlineFields e ''Buy milk'' = []"
      "extractInlineFields e ''Buy milk #errand'' = []"
  shows "\<exists>d. listItemToItemData e sm (pre @ buyMilkLine @ post) (buyMilkItem (length pre)) = Inr d
       \<and> tags (metadata d) = [''#errand'']
       \<and> title d = (if truthy (getSetting sm ''move-tags'') then ''Buy milk'' else ''Buy milk #errand'')"
proof -
  define off where "off = length pre"
  define md where "md = pre @ buyMilkLine @ post"
  define para where "para = Node ''paragraph'' (at (off + 6) (off + 22))
          (Arr [textNode ''Buy milk '' (off + 6) (off + 15),
                Node ''hashtag'' ((at (off + 15) (off + 22))\<lparr>n_value := Some ''errand''\<rparr>)
                  (Arr [])])"
  have item: "buyMilkItem off = Node ''listItem'' ((at off (off + 22))\<lparr>n_checked := Some False\<rparr>) (Arr [para])"
    by (simp add: buyMilkItem_def para_def)
  have bnd: "getNodeContentBoundary para = Inr (Some (off + 6, off + 22))"
    by (simp add: para_def textNode_def at_def noAttrs_def offsetTruthy_def)
  have cbs: "childBoundary True para = Inr (off + 6)" "childBoundary False para = Inr (off + 22)"
    using bnd by (simp_all add: childBoundary_def para_def)
  have offs: "offsetTruthy (startOffset para)" "offsetTruthy (endOffset para)" "para \<noteq> NullNode"
    by (simp_all add: para_def at_def noAttrs_def offsetTruthy_def)
  have content: "getStringFromBoundary md (Some (off + 6, off + 22)) = ''Buy milk #errand''"
    unfolding md_def off_def by (rule buyMilk_content)
  have pre: "preorder None (ensureChildrenAreArrays (buyMilkItem off) 0) =
     [(buyMilkItem off, None), (para, Some (buyMilkItem off)),
      (textNode ''Buy milk '' (off + 6) (off + 15), Some para),
      (Node ''hashtag'' ((at (off + 15) (off + 22))\<lparr>n_value := Some ''errand''\<rparr>) (Arr []), Some para)]"
    unfolding buyMilk_ensure by (simp add: item para_def textNode_def)
  have nf: "\<not> firstChildStartsFence (Some para)"
    by (simp add: para_def textNode_def at_def noAttrs_def)
  define hashtag where "hashtag = Node ''hashtag'' ((at (off + 15) (off + 22))\<lparr>n_value := Some ''errand''\<rparr>) (Arr [])"
  define ts where "ts = fold searchVisit (preorder None (ensureChildrenAreArrays (buyMilkItem off) 0)) []"
  define d0 where "d0 = \<lparr>titleRaw = removeBlockId e (dedentNewLines e (replaceBrs e ''Buy milk #errand'')),
        blockId = None, title = [], titleSearch = ts, titleSearchRaw = ts,
        metadata = emptyMetadata,
        checked = False, checkChar = '' '', projectFile = None, projectLaneId = None, projectItemId = None\<rparr>"
  define mt where "mt = truthy (getSetting sm ''move-tags'')"
  have ne: "(''Buy milk #errand'' = ''['' @ '' '' @ '']'') = False" by simp
  have t0: "tags (metadata d0) = []" by (simp add: d0_def emptyMetadata_def)
  have ic: "itemChecked (buyMilkItem off) = False" "itemCheckChar (buyMilkItem off) = '' ''"
    by (simp_all add: item)
  have mark: "markNode mt ((at (off + 15) (off + 22))\<lparr>n_value := Some ''errand''\<rparr>) (off + 6) ''Buy milk #errand''
      = (if mt then ''Buy milk '' @ replicate 7 (CHR 0x00) else ''Buy milk #errand'')"
    by (simp add: markNode_def at_def noAttrs_def offsetTruthy_def markRangeForDeletion_def Let_def
        numeral_eq_Suc)
  have mv1: "metadataVisit mt md' b (buyMilkItem off, None) (d, t) = (d, t)" for md' b d t
    by (simp add: item)
  have mv2: "metadataVisit mt md' b (para, p) (d, t) = (d, t)" for md' b d t p
    by (simp add: para_def)
  have mv3: "metadataVisit mt md' b (textNode ''Buy milk '' (off + 6) (off + 15), p) (d, t) = (d, t)"
    for md' b d t p
    by (simp add: textNode_def)
  have mv4: "metadataVisit mt md' (off + 6) (hashtag, Some para) (d, ''Buy milk #errand'')
      = (d\<lparr>metadata := (metadata d)\<lparr>tags := tags (metadata d) @ [''#errand'']\<rparr>\<rparr>,
         if mt then ''Buy milk '' @ replicate 7 (CHR 0x00) else ''Buy milk #errand'')" for md' d
    using nf mark by (simp add: hashtag_def)
  have fold2: "fold (metadataVisit mt md' (off + 6))
       (preorder None (ensureChildrenAreArrays (buyMilkItem off) 0)) (d, ''Buy milk #errand'')
     = (d\<lparr>metadata := (metadata d)\<lparr>tags := tags (metadata d) @ [''#errand'']\<rparr>\<rparr>,
        if mt then ''Buy milk '' @ replicate 7 (CHR 0x00) else ''Buy milk #errand'')" for md' d
    unfolding pre hashtag_def[symmetric]
    by (simp only: fold.simps comp_apply mv1 mv2 mv3 mv4 id_apply)
  have exec: "executeDeletion (if mt then ''Buy milk '' @ replicate 7 (CHR 0x00) else ''Buy milk #errand'')
      = (if mt then ''Buy milk'' else ''Buy milk #errand'')"
    by (simp add: executeDeletion_def trim_def isSpace_def numeral_eq_Suc)
  let ?t = "(if mt then ''Buy milk'' else ''Buy milk #errand'')"
  have hk: "preprocessTitle e sm (dedentNewLines e ?t) = ?t" "extractInlineFields e ?t = []"
    using hooks by auto
  define d2 where "d2 = (d0\<lparr>metadata := (metadata d0)\<lparr>tags := [''#errand'']\<rparr>\<rparr>)\<lparr>title := ?t\<rparr>"
  have ai: "applyInlineFields e sm d2 = d2"
    using hk by (simp add: applyInlineFields_def d2_def Let_def)
  have "listItemToItemData e sm md (buyMilkItem off)
      = Inr (d2\<lparr>metadata := (metadata d2)\<lparr>tags := sortBy (defaultSort e) (tags (metadata d2))\<rparr>\<rparr>)"
    unfolding listItemToItemData_def
    apply (simp only: item node.case kids.case list.case Let_def last.simps if_False offs cbs
        sum.case content simp_thms if_True refl)
    apply (simp only: item[symmetric] ts_def[symmetric] ic if_False ne)
    apply (simp only: mt_def[symmetric] fold2 prod.case)
    apply (simp add: exec hooks applyInlineFields_none emptyMetadata_def d2_def d0_def)
    done
  moreover have "tags (metadata (d2\<lparr>metadata := (metadata d2)\<lparr>tags := sortBy (defaultSort e) (tags (metadata d2))\<rparr>\<rparr>)) = [''#errand'']"
    by (simp add: d2_def sortBy_def)
  moreover have "title (d2\<lparr>metadata := (metadata d2)\<lparr>tags := sortBy (defaultSort e) (tags (metadata d2))\<rparr>\<rparr>) = ?t"
    by (simp add: d2_def)
  ultimately show ?thesis unfolding md_def off_def mt_def by blast
qed

theorem tag_extraction_witness:
  "(\<exists>d. listItemToItemData sampleEnv (sampleManager True) buyMilkLine (buyMilkItem 0) = Inr d
        \<and> tags (metadata d) = [''#errand''] \<and> title d = ''Buy milk'')
   \<and> (\<exists>d. listItemToItemData sampleEnv (sampleManager False) buyMilkLine (buyMilkItem 0) = Inr d
        \<and> tags (metadata d) = [''#errand''] \<and> title d = ''Buy milk #errand'')"
proof -
  have on: "truthy (getSetting (sampleManager True) ''move-tags'')"
    and off: "\<not> truthy (getSetting (sampleManager False) ''move-tags'')"
    by (simp_all add: sampleManager_def createTempStateManager_def getSetting_def sampleGlobals_def)
  have h: "dedentNewLines sampleEnv ''Buy milk'' = ''Buy milk''"
      "dedentNewLines sampleEnv ''Buy milk #errand'' = ''Buy milk #errand''"
      "preprocessTitle sampleEnv sm ''Buy milk'' = ''Buy milk''"
      "preprocessTitle sampleEnv sm ''Buy milk #errand'' = ''Buy milk #errand''"
      "extractInlineFields sampleEnv ''Buy milk'' = []"
      "extractInlineFields sampleEnv ''Buy milk #errand'' = []" for sm
    by (simp_all add: sampleEnv_def)
  from tag_extraction [OF h, of "sampleManager True" "[]" "[]"]
       tag_extraction [OF h, of "sampleManager False" "[]" "[]"] on off
  show ?thesis by simp
qed

section \<open>Archive detection\<close>

lemma archiveItems_data:
  "map item_data (fst (archiveItems e sm md xs n)) = itemDatas e sm md xs"
proof (induction xs arbitrary: n)
  case Nil
  then show ?case by simp
next
  case (Cons a xs)
  have "map item_data (fst (archiveItems e sm md xs m)) = itemDatas e sm md xs" for m
    by (rule Cons.IH)
  then show ?case
    by (simp split: sum.splits prod.splits) (metis fst_conv)
qed

lemma laneItemsOf_data:
  "map item_data (fst (laneItemsOf e sm md xs n)) = itemDatas e sm md xs"
proof (induction xs arbitrary: n)
  case Nil
  then show ?case by simp
next
  case (Cons a xs)
  have "map item_data (fst (laneItemsOf e sm md xs m)) = itemDatas e sm md xs" for m
    by (rule Cons.IH)
  then show ?case
    by (simp split: sum.splits prod.splits) (metis fst_conv)
qed

lemma headingWithContent_iff:
  "headingWithContent c \<longleftrightarrow> c \<noteq> NullNode \<and> typeOf (ensureChildrenAreArrays c 0) = Some ''heading''
     \<and> (\<exists>b. getNodeContentBoundary (ensureChildrenAreArrays c 0) = Inr (Some b))"
  by (auto simp: headingWithContent_def split: sum.splits option.splits)

lemma typeOf_ensure [simp]: "typeOf (ensureChildrenAreArrays c d) = typeOf c"
  by (cases c) auto

text \<open>
  The helpers of the builder against the list of siblings: \<open>getPrevSibling\<close> reads
  the sibling at index \<open>i - 1\<close>, and the look-ahead returns the first list among the
  later siblings unless a heading or a settings paragraph comes first.
\<close>

lemma getPrevSibling_break:
  "(typeOf (getPrevSibling children i) = Some ''thematicBreak'') = precededByBreak children i"
  by (auto simp: getPrevSibling_def precededByBreak_def)

lemma getNextOfType_from_find:
  "fst (getNextOfType_from ''list'' (shouldContinue e) xs st)
     = (case find (\<lambda>c. typeOf c = Some ''list'' \<or> endsSection c) xs of
          None \<Rightarrow> None
        | Some c \<Rightarrow> if typeOf c = Some ''list'' then Some c else None)"
proof (induction xs arbitrary: st)
  case Nil
  then show ?case by simp
next
  case (Cons c xs)
  show ?case
  proof (cases "c = NullNode")
    case True
    then show ?thesis using Cons.IH[of st] by (simp add: endsSection_def settingsParagraph_def)
  next
    case False
    show ?thesis
    proof (cases "typeOf c = Some ''list''")
      case True
      then show ?thesis using False by (simp add: eq_commute[of "Some ''list''"])
    next
      case nl: False
      show ?thesis
      proof (cases "endsSection c")
        case True
        then have "fst (shouldContinue e c st) = False"
          by (auto simp: endsSection_def settingsParagraph_def shouldContinue_def Let_def)
        then obtain st' where "shouldContinue e c st = (False, st')"
          by (cases "shouldContinue e c st") simp
        then show ?thesis using False nl True by (simp add: eq_commute[of "Some ''list''"])
      next
        case ne: False
        then have "fst (shouldContinue e c st) = True"
          by (auto simp: endsSection_def settingsParagraph_def shouldContinue_def Let_def)
        then obtain st' where "shouldContinue e c st = (True, st')"
          by (cases "shouldContinue e c st") simp
        then show ?thesis using False nl ne Cons.IH[of st']
          by (simp add: eq_commute[of "Some ''list''"])
      qed
    qed
  qed
qed

lemma getNextOfType_followingList:
  "fst (getNextOfType children i ''list'' (shouldContinue e) st) = followingList children i"
  by (simp add: getNextOfType_def followingList_def getNextOfType_from_find)

lemma find_drop_iff:
  "find P (drop a xs) = Some x \<longleftrightarrow>
     (\<exists>j. a \<le> j \<and> j < length xs \<and> P (xs ! j) \<and> x = xs ! j
        \<and> (\<forall>k. a \<le> k \<and> k < j \<longrightarrow> \<not> P (xs ! k)))"
proof
  assume "find P (drop a xs) = Some x"
  then obtain m where m: "m < length (drop a xs)" "P (drop a xs ! m)" "x = drop a xs ! m"
    "\<forall>j<m. \<not> P (drop a xs ! j)"
    unfolding find_Some_iff by blast
  have "\<not> P (xs ! k)" if "a \<le> k" "k < a + m" for k
  proof -
    from that have "k - a < m" by simp
    with m(4) have "\<not> P (drop a xs ! (k - a))" by simp
    with that m(1) show ?thesis by simp
  qed
  with m show "\<exists>j. a \<le> j \<and> j < length xs \<and> P (xs ! j) \<and> x = xs ! j
        \<and> (\<forall>k. a \<le> k \<and> k < j \<longrightarrow> \<not> P (xs ! k))"
    by (intro exI[of _ "a + m"]) auto
next
  assume "\<exists>j. a \<le> j \<and> j < length xs \<and> P (xs ! j) \<and> x = xs ! j
        \<and> (\<forall>k. a \<le> k \<and> k < j \<longrightarrow> \<not> P (xs ! k))"
  then obtain j where j: "a \<le> j" "j < length xs" "P (xs ! j)" "x = xs ! j"
    "\<forall>k. a \<le> k \<and> k < j \<longrightarrow> \<not> P (xs ! k)" by blast
  have "j - a < length (drop a xs)" using j(1,2) by simp
  moreover have "P (drop a xs ! (j - a))" "x = drop a xs ! (j - a)" using j by simp_all
  moreover have "\<forall>m<j - a. \<not> P (drop a xs ! m)"
  proof (intro allI impI)
    fix m assume "m < j - a"
    with j(1,2,5) have "\<not> P (xs ! (a + m))" by simp
    with j(2) \<open>m < j - a\<close> show "\<not> P (drop a xs ! m)" by simp
  qed
  ultimately show "find P (drop a xs) = Some x"
    unfolding find_Some_iff by blast
qed

lemma followingList_Some_iff:
  "followingList children i = Some l \<longleftrightarrow>
     (\<exists>j. i < j \<and> j < length children \<and> children ! j = l \<and> typeOf l = Some ''list''
        \<and> (\<forall>k. i < k \<and> k < j \<longrightarrow>
              typeOf (children ! k) \<noteq> Some ''list'' \<and> \<not> endsSection (children ! k)))"
proof -
  let ?P = "\<lambda>c. typeOf c = Some ''list'' \<or> endsSection c"
  have "followingList children i = Some l \<longleftrightarrow>
      find ?P (drop (Suc i) children) = Some l \<and> typeOf l = Some ''list''"
    by (auto simp: followingList_def split: option.splits if_splits)
  also have "\<dots> \<longleftrightarrow>
     (\<exists>j. i < j \<and> j < length children \<and> children ! j = l \<and> typeOf l = Some ''list''
        \<and> (\<forall>k. i < k \<and> k < j \<longrightarrow>
              typeOf (children ! k) \<noteq> Some ''list'' \<and> \<not> endsSection (children ! k)))"
    unfolding find_drop_iff by (auto simp: Suc_le_eq)
  finally show ?thesis .
qed

lemma isArchiveLane_heading:
  "typeOf c = Some ''heading'' \<Longrightarrow>
   isArchiveLane e (ensureChildrenAreArrays c 0) children i = archiveHeading e children (i, c)"
  by (simp add: isArchiveLane_def archiveHeading_def getPrevSibling_break)

text \<open>One round of the loop, by the kind of child.\<close>

lemma processChild_other:
  assumes "\<not> headingWithContent c"
  shows "processChild e sm md children (i, c) (lanes, archv, n) = (lanes, archv, n)"
proof (cases "c = NullNode")
  case True
  then show ?thesis by (simp add: processChild_def)
next
  case False
  show ?thesis
  proof (cases "typeOf c = Some ''heading''")
    case False
    with \<open>c \<noteq> NullNode\<close> show ?thesis by (simp add: processChild_def Let_def)
  next
    case True
    with assms False have "\<nexists>b. getNodeContentBoundary (ensureChildrenAreArrays c 0) = Inr (Some b)"
      by (simp add: headingWithContent_iff)
    then show ?thesis using False True
      by (cases "getNodeContentBoundary (ensureChildrenAreArrays c 0)")
         (auto simp: processChild_def Let_def split: option.splits)
  qed
qed

lemma processChild_archive:
  assumes "routesToArchive e children (i, c)"
  shows "\<exists>its n'. processChild e sm md children (i, c) (lanes, archv, n) = (lanes, archv @ its, n')
          \<and> map item_data its = followingItems e sm md children (i, c)"
proof -
  from assms have nn: "c \<noteq> NullNode" and h: "typeOf c = Some ''heading''"
    and ah: "archiveHeading e children (i, c)"
    by (auto simp: routesToArchive_def headingWithContent_iff)
  from assms obtain b where b: "getNodeContentBoundary (ensureChildrenAreArrays c 0) = Inr (Some b)"
    by (auto simp: routesToArchive_def headingWithContent_iff)
  from assms obtain l where l: "followingList children i = Some l"
    by (auto simp: routesToArchive_def)
  obtain flag where g: "getNextOfType children i ''list'' (shouldContinue e) False = (Some l, flag)"
    using l getNextOfType_followingList[of children i e False]
    by (cases "getNextOfType children i ''list'' (shouldContinue e) False") simp
  obtain its n' where a: "archiveItems e sm md (listChildrenOf l) n = (its, n')"
    by (cases "archiveItems e sm md (listChildrenOf l) n")
  have "map item_data its = itemDatas e sm md (listChildrenOf l)"
    using archiveItems_data[of e sm md "listChildrenOf l" n] a by simp
  then have "map item_data its = followingItems e sm md children (i, c)"
    using l by (simp add: followingItems_def)
  moreover have "processChild e sm md children (i, c) (lanes, archv, n) = (lanes, archv @ its, n')"
    using nn h b g a ah by (simp add: processChild_def Let_def isArchiveLane_heading)
  ultimately show ?thesis by blast
qed

lemma processChild_lane:
  assumes "startsLane e children (i, c)"
  shows "\<exists>l n'. processChild e sm md children (i, c) (lanes, archv, n) = (lanes @ [l], archv, n')
          \<and> lane_title (lane_data l) = fst (parseLaneTitle e (headingText md c))
          \<and> map item_data (lane_children l) = followingItems e sm md children (i, c)"
proof -
  from assms have nn: "c \<noteq> NullNode" and h: "typeOf c = Some ''heading''"
    and na: "\<not> (archiveHeading e children (i, c) \<and> followingList children i \<noteq> None)"
    by (auto simp: startsLane_def headingWithContent_iff)
  from assms obtain b where b: "getNodeContentBoundary (ensureChildrenAreArrays c 0) = Inr (Some b)"
    by (auto simp: startsLane_def headingWithContent_iff)
  have ht: "headingText md c = getStringFromBoundary md (Some b)"
    using b by (simp add: headingText_def)
  obtain lst flag where g: "getNextOfType children i ''list'' (shouldContinue e) False = (lst, flag)"
    by (cases "getNextOfType children i ''list'' (shouldContinue e) False")
  then have fl: "followingList children i = lst"
    using getNextOfType_followingList[of children i e False] by simp
  show ?thesis
  proof (cases lst)
    case None
    then show ?thesis using nn h b g ht fl
      by (simp add: processChild_def Let_def newLane_def followingItems_def)
  next
    case (Some l)
    with na fl have nah: "\<not> archiveHeading e children (i, c)" by simp
    show ?thesis
    proof (cases "listChildrenOf l = []")
      case True
      then show ?thesis using nn h b g ht fl Some nah
        by (simp add: processChild_def Let_def newLane_def followingItems_def isArchiveLane_heading)
    next
      case False
      obtain its n' where a: "laneItemsOf e sm md (listChildrenOf l) n = (its, n')"
        by (cases "laneItemsOf e sm md (listChildrenOf l) n")
      have "map item_data its = itemDatas e sm md (listChildrenOf l)"
        using laneItemsOf_data[of e sm md "listChildrenOf l" n] a by simp
      then show ?thesis using nn h b g ht fl Some nah False a
        by (simp add: processChild_def Let_def newLane_def followingItems_def isArchiveLane_heading)
    qed
  qed
qed

lemma lane_or_archive_or_other:
  "startsLane e children p \<or> routesToArchive e children p \<or> \<not> headingWithContent (snd p)"
  by (cases p) (auto simp: startsLane_def routesToArchive_def)

lemma not_both: "\<not> (startsLane e children p \<and> routesToArchive e children p)"
  by (cases p) (auto simp: startsLane_def routesToArchive_def)

lemma fold_processChild:
  assumes "fold (processChild e sm md children) ps (lanes, archv, n) = (lanes', archv', n')"
  shows "map (lane_title \<circ> lane_data) lanes' =
           map (lane_title \<circ> lane_data) lanes
           @ map (\<lambda>p. fst (parseLaneTitle e (headingText md (snd p)))) (filter (startsLane e children) ps)
       \<and> map (map item_data \<circ> lane_children) lanes' =
           map (map item_data \<circ> lane_children) lanes
           @ map (followingItems e sm md children) (filter (startsLane e children) ps)
       \<and> map item_data archv' =
           map item_data archv
           @ concat (map (followingItems e sm md children) (filter (routesToArchive e children) ps))"
  using assms
proof (induction ps arbitrary: lanes archv n)
  case Nil
  then show ?case by simp
next
  case (Cons p ps)
  obtain i c where p: "p = (i, c)" by (cases p)
  consider (lane) "startsLane e children p" "\<not> routesToArchive e children p"
    | (arch) "routesToArchive e children p" "\<not> startsLane e children p"
    | (other) "\<not> headingWithContent c" "\<not> startsLane e children p" "\<not> routesToArchive e children p"
    using lane_or_archive_or_other[of e children p] not_both[of e children p] p
    by (auto simp: startsLane_def routesToArchive_def)
  then show ?case
  proof cases
    case lane
    from processChild_lane[OF lane(1)[unfolded p], of sm md lanes archv n] obtain l n1 where
      st: "processChild e sm md children (i, c) (lanes, archv, n) = (lanes @ [l], archv, n1)"
      and lt: "lane_title (lane_data l) = fst (parseLaneTitle e (headingText md c))"
      and li: "map item_data (lane_children l) = followingItems e sm md children (i, c)" by blast
    from Cons.prems st p have
      "fold (processChild e sm md children) ps (lanes @ [l], archv, n1) = (lanes', archv', n')"
      by simp
    from Cons.IH[OF this] lane lt li p show ?thesis by simp
  next
    case arch
    from processChild_archive[OF arch(1)[unfolded p], of sm md lanes archv n] obtain its n1 where
      st: "processChild e sm md children (i, c) (lanes, archv, n) = (lanes, archv @ its, n1)"
      and li: "map item_data its = followingItems e sm md children (i, c)" by blast
    from Cons.prems st p have
      "fold (processChild e sm md children) ps (lanes, archv @ its, n1) = (lanes', archv', n')"
      by simp
    from Cons.IH[OF this] arch li p show ?thesis by simp
  next
    case other
    from processChild_other[OF other(1), of e sm md children i lanes archv n] Cons.prems p have
      "fold (processChild e sm md children) ps (lanes, archv, n) = (lanes', archv', n')"
      by simp
    from Cons.IH[OF this] other p show ?thesis by simp
  qed
qed

text \<open>
  C6 as stated fails twice: an \<open>Archive\<close> heading right after a thematic break with
  no list after it starts a lane titled \<open>Archive\<close>, and a heading without text
  starts no lane.
\<close>

theorem archive_detection_counterexample:
  "archiveHeading sampleEnv (listChildrenOf archiveOnlyRoot) (1, listChildrenOf archiveOnlyRoot ! 1)
   \<and> map (lane_title \<circ> lane_data)
        (board_children (astToUnhydratedBoard sampleEnv (sampleManager False) [] []
           archiveOnlyRoot archiveOnlyDoc)) = [''Archive'']
   \<and> archive (board_data (astToUnhydratedBoard sampleEnv (sampleManager False) [] []
           archiveOnlyRoot archiveOnlyDoc)) = []
   \<and> board_children (astToUnhydratedBoard sampleEnv (sampleManager False) [] []
           emptyHeadingRoot ''##'') = []"
  by code_simp

text \<open>
  C6, amended. Among the children of the root, a heading with content at index
  \<open>i\<close> routes to the archive exactly when its text is the literal word
  \<open>Archive\<close>, the sibling at index \<open>i - 1\<close> is a thematic break, and a list
  follows it: some later sibling is a list and no sibling between the two is a list, a
  heading or a settings paragraph. Such a heading puts the items of that list into the
  board's archive and creates no lane. Every other heading with content starts a lane
  that holds the items of its following list: a heading named \<open>Archive\<close> that is
  not immediately preceded by a thematic break, and also one that is, when no list
  follows it. The lanes of the board are exactly these headings, in order, titled by
  \<open>parseLaneTitle\<close> of the heading's text; the archive is exactly the items of the
  lists routed to it. A heading without content creates neither.
\<close>

theorem archive_detection:
  "map (lane_title \<circ> lane_data)
       (board_children (astToUnhydratedBoard e sm s f (Node ty a (Arr children)) md))
     = map (\<lambda>p. fst (parseLaneTitle e (headingText md (snd p))))
         (filter (startsLane e children) (enumerate 0 children))
   \<and> map (map item_data \<circ> lane_children)
       (board_children (astToUnhydratedBoard e sm s f (Node ty a (Arr children)) md))
     = map (followingItems e sm md children) (filter (startsLane e children) (enumerate 0 children))
   \<and> map item_data (archive (board_data (astToUnhydratedBoard e sm s f (Node ty a (Arr children)) md)))
     = concat (map (followingItems e sm md children)
         (filter (routesToArchive e children) (enumerate 0 children)))
   \<and> (i < length children \<longrightarrow>
        (routesToArchive e children (i, children ! i) \<longleftrightarrow>
           headingWithContent (children ! i)
           \<and> toString False (ensureChildrenAreArrays (children ! i) 0) = t_lang e ''Archive''
           \<and> 0 < i \<and> typeOf (children ! (i - 1)) = Some ''thematicBreak''
           \<and> (\<exists>j. i < j \<and> j < length children \<and> typeOf (children ! j) = Some ''list''
                \<and> (\<forall>k. i < k \<and> k < j \<longrightarrow>
                      typeOf (children ! k) \<noteq> Some ''list''
                      \<and> typeOf (children ! k) \<noteq> Some ''heading''
                      \<and> \<not> settingsParagraph (children ! k)))))
   \<and> (followingList children i = Some l \<longleftrightarrow>
        (\<exists>j. i < j \<and> j < length children \<and> children ! j = l \<and> typeOf l = Some ''list''
           \<and> (\<forall>k. i < k \<and> k < j \<longrightarrow>
                 typeOf (children ! k) \<noteq> Some ''list''
                 \<and> typeOf (children ! k) \<noteq> Some ''heading''
                 \<and> \<not> settingsParagraph (children ! k))))
   \<and> (startsLane e children (i, c) \<longleftrightarrow>
        headingWithContent c \<and> \<not> routesToArchive e children (i, c))"
proof -
  obtain lanes archv n where
    fl: "fold (processChild e sm md children) (enumerate 0 children) ([], [], 0) = (lanes, archv, n)"
    by (cases "fold (processChild e sm md children) (enumerate 0 children) ([], [], 0)")
  have b: "board_children (astToUnhydratedBoard e sm s f (Node ty a (Arr children)) md) = lanes"
    "archive (board_data (astToUnhydratedBoard e sm s f (Node ty a (Arr children)) md)) = archv"
    using fl by (simp_all add: astToUnhydratedBoard_def)
  have fs: "followingList children i = Some l \<longleftrightarrow>
        (\<exists>j. i < j \<and> j < length children \<and> children ! j = l \<and> typeOf l = Some ''list''
           \<and> (\<forall>k. i < k \<and> k < j \<longrightarrow>
                 typeOf (children ! k) \<noteq> Some ''list''
                 \<and> typeOf (children ! k) \<noteq> Some ''heading''
                 \<and> \<not> settingsParagraph (children ! k)))" for l
    unfolding followingList_Some_iff by (simp add: endsSection_def)
  have ex: "(\<exists>l. followingList children i = Some l) \<longleftrightarrow>
        (\<exists>j. i < j \<and> j < length children \<and> typeOf (children ! j) = Some ''list''
           \<and> (\<forall>k. i < k \<and> k < j \<longrightarrow>
                 typeOf (children ! k) \<noteq> Some ''list''
                 \<and> typeOf (children ! k) \<noteq> Some ''heading''
                 \<and> \<not> settingsParagraph (children ! k)))"
    unfolding fs by blast
  have r: "i < length children \<longrightarrow>
        (routesToArchive e children (i, children ! i) \<longleftrightarrow>
           headingWithContent (children ! i)
           \<and> toString False (ensureChildrenAreArrays (children ! i) 0) = t_lang e ''Archive''
           \<and> 0 < i \<and> typeOf (children ! (i - 1)) = Some ''thematicBreak''
           \<and> (\<exists>j. i < j \<and> j < length children \<and> typeOf (children ! j) = Some ''list''
                \<and> (\<forall>k. i < k \<and> k < j \<longrightarrow>
                      typeOf (children ! k) \<noteq> Some ''list''
                      \<and> typeOf (children ! k) \<noteq> Some ''heading''
                      \<and> \<not> settingsParagraph (children ! k))))"
    by (simp add: routesToArchive_def archiveHeading_def precededByBreak_def ex)
  have l: "startsLane e children (i, c) \<longleftrightarrow>
        headingWithContent c \<and> \<not> routesToArchive e children (i, c)"
    by (auto simp: startsLane_def routesToArchive_def)
  from fold_processChild[OF fl] b have
    "map (lane_title \<circ> lane_data)
       (board_children (astToUnhydratedBoard e sm s f (Node ty a (Arr children)) md))
     = map (\<lambda>p. fst (parseLaneTitle e (headingText md (snd p))))
         (filter (startsLane e children) (enumerate 0 children))"
    "map (map item_data \<circ> lane_children)
       (board_children (astToUnhydratedBoard e sm s f (Node ty a (Arr children)) md))
     = map (followingItems e sm md children) (filter (startsLane e children) (enumerate 0 children))"
    "map item_data (archive (board_data (astToUnhydratedBoard e sm s f (Node ty a (Arr children)) md)))
     = concat (map (followingItems e sm md children)
         (filter (routesToArchive e children) (enumerate 0 children)))"
    by simp_all
  with r fs[of l] l show ?thesis by blast
qed

theorem archive_detection_witness:
  "2 < length (listChildrenOf archivedRoot)
   \<and> routesToArchive sampleEnv (listChildrenOf archivedRoot) (2, listChildrenOf archivedRoot ! 2)
   \<and> typeOf (listChildrenOf archivedRoot ! (2 - 1)) = Some ''thematicBreak''
   \<and> map (lane_title \<circ> lane_data)
       (board_children (astToUnhydratedBoard sampleEnv (sampleManager True) [] [] archivedRoot archivedDoc))
     = [''Todo'']
   \<and> map (title \<circ> item_data)
       (archive (board_data (astToUnhydratedBoard sampleEnv (sampleManager True) [] [] archivedRoot archivedDoc)))
     = [''Buy milk'']
   \<and> 3 < length (listChildrenOf breakFirstRoot)
   \<and> typeOf (listChildrenOf breakFirstRoot ! 0) = Some ''thematicBreak''
   \<and> typeOf (listChildrenOf breakFirstRoot ! (3 - 1)) = Some ''list''
   \<and> \<not> routesToArchive sampleEnv (listChildrenOf breakFirstRoot) (3, listChildrenOf breakFirstRoot ! 3)
   \<and> map (lane_title \<circ> lane_data)
       (board_children (astToUnhydratedBoard sampleEnv (sampleManager True) [] [] breakFirstRoot breakFirstDoc))
     = [''Todo'', ''Archive'']
   \<and> archive (board_data (astToUnhydratedBoard sampleEnv (sampleManager True) [] [] breakFirstRoot breakFirstDoc))
     = []
   \<and> followingList (listChildrenOf twoHeadingsRoot) 0 = None
   \<and> map (lane_title \<circ> lane_data)
       (board_children (astToUnhydratedBoard sampleEnv (sampleManager True) [] [] twoHeadingsRoot twoHeadingsDoc))
     = [''A'', ''B'']
   \<and> map (map (title \<circ> item_data) \<circ> lane_children)
       (board_children (astToUnhydratedBoard sampleEnv (sampleManager True) [] [] twoHeadingsRoot twoHeadingsDoc))
     = [[], [''Buy milk'']]"
proof -
  define cs where "cs = listChildrenOf archivedRoot"
  define bs where "bs = listChildrenOf breakFirstRoot"
  define ts where "ts = listChildrenOf twoHeadingsRoot"
  have root: "archivedRoot = Node ''root'' (at 0 47) (Arr cs)"
    "breakFirstRoot = Node ''root'' (at 0 72) (Arr bs)"
    "twoHeadingsRoot = Node ''root'' (at 0 34) (Arr ts)"
    by (simp_all add: cs_def bs_def ts_def archivedRoot_def breakFirstRoot_def twoHeadingsRoot_def)
  let ?A = "astToUnhydratedBoard sampleEnv (sampleManager True) [] [] (Node ''root'' (at 0 47) (Arr cs)) archivedDoc"
  let ?B = "astToUnhydratedBoard sampleEnv (sampleManager True) [] [] (Node ''root'' (at 0 72) (Arr bs)) breakFirstDoc"
  let ?T = "astToUnhydratedBoard sampleEnv (sampleManager True) [] [] (Node ''root'' (at 0 34) (Arr ts)) twoHeadingsDoc"
  note TA = archive_detection [of sampleEnv "sampleManager True" "[]" "[]" "''root''" "at 0 47" cs
      archivedDoc 2 NullNode NullNode]
  note TB = archive_detection [of sampleEnv "sampleManager True" "[]" "[]" "''root''" "at 0 72" bs
      breakFirstDoc 3 NullNode NullNode]
  note TT = archive_detection [of sampleEnv "sampleManager True" "[]" "[]" "''root''" "at 0 34" ts
      twoHeadingsDoc 0 NullNode NullNode]
  have a1: "2 < length cs" "typeOf (cs ! (2 - 1)) = Some ''thematicBreak''"
    "headingWithContent (cs ! 2)"
    "toString False (ensureChildrenAreArrays (cs ! 2) 0) = t_lang sampleEnv ''Archive''"
    unfolding cs_def by code_simp+
  have a2: "3 < length cs \<and> typeOf (cs ! 3) = Some ''list''"
    unfolding cs_def by code_simp
  have a3: "\<exists>j. 2 < j \<and> j < length cs \<and> typeOf (cs ! j) = Some ''list''
        \<and> (\<forall>k. 2 < k \<and> k < j \<longrightarrow>
              typeOf (cs ! k) \<noteq> Some ''list'' \<and> typeOf (cs ! k) \<noteq> Some ''heading''
              \<and> \<not> settingsParagraph (cs ! k))"
    using a2 by (intro exI[of _ 3]) auto
  from TA a1 a3 have ra: "routesToArchive sampleEnv cs (2, cs ! 2)"
    by simp
  have la: "map (\<lambda>p. fst (parseLaneTitle sampleEnv (headingText archivedDoc (snd p))))
         (filter (startsLane sampleEnv cs) (enumerate 0 cs)) = [''Todo'']"
    unfolding cs_def by code_simp
  have aa: "map title (concat (map (followingItems sampleEnv (sampleManager True) archivedDoc cs)
         (filter (routesToArchive sampleEnv cs) (enumerate 0 cs)))) = [''Buy milk'']"
    unfolding cs_def by code_simp
  from TA have "map (lane_title \<circ> lane_data) (board_children ?A)
      = map (\<lambda>p. fst (parseLaneTitle sampleEnv (headingText archivedDoc (snd p))))
          (filter (startsLane sampleEnv cs) (enumerate 0 cs))"
    by (rule conjunct1)
  with la have ga1: "map (lane_title \<circ> lane_data) (board_children ?A) = [''Todo'']"
    by (simp only:)
  from TA have "map item_data (archive (board_data ?A))
      = concat (map (followingItems sampleEnv (sampleManager True) archivedDoc cs)
          (filter (routesToArchive sampleEnv cs) (enumerate 0 cs)))"
    by blast
  with aa have "map title (map item_data (archive (board_data ?A))) = [''Buy milk'']"
    by (simp only:)
  then have ga2: "map (title \<circ> item_data) (archive (board_data ?A)) = [''Buy milk'']"
    by simp
  have b1: "3 < length bs" "typeOf (bs ! 0) = Some ''thematicBreak''"
    "typeOf (bs ! (3 - 1)) = Some ''list''"
    unfolding bs_def by code_simp+
  from TB b1 have rb: "\<not> routesToArchive sampleEnv bs (3, bs ! 3)"
    by simp
  have lb: "map (\<lambda>p. fst (parseLaneTitle sampleEnv (headingText breakFirstDoc (snd p))))
         (filter (startsLane sampleEnv bs) (enumerate 0 bs)) = [''Todo'', ''Archive'']"
    unfolding bs_def by code_simp
  have ab: "concat (map (followingItems sampleEnv (sampleManager True) breakFirstDoc bs)
         (filter (routesToArchive sampleEnv bs) (enumerate 0 bs))) = []"
    unfolding bs_def by code_simp
  from TB have "map (lane_title \<circ> lane_data) (board_children ?B)
      = map (\<lambda>p. fst (parseLaneTitle sampleEnv (headingText breakFirstDoc (snd p))))
          (filter (startsLane sampleEnv bs) (enumerate 0 bs))"
    by (rule conjunct1)
  with lb have gb1: "map (lane_title \<circ> lane_data) (board_children ?B) = [''Todo'', ''Archive'']"
    by (simp only:)
  from TB have "map item_data (archive (board_data ?B))
      = concat (map (followingItems sampleEnv (sampleManager True) breakFirstDoc bs)
          (filter (routesToArchive sampleEnv bs) (enumerate 0 bs)))"
    by blast
  with ab have "map item_data (archive (board_data ?B)) = []"
    by (simp only:)
  then have gb2: "archive (board_data ?B) = []"
    by simp
  have ft: "followingList ts 0 = None"
    unfolding ts_def by code_simp
  have lt: "map (\<lambda>p. fst (parseLaneTitle sampleEnv (headingText twoHeadingsDoc (snd p))))
         (filter (startsLane sampleEnv ts) (enumerate 0 ts)) = [''A'', ''B'']"
    unfolding ts_def by code_simp
  have it: "map (map title) (map (followingItems sampleEnv (sampleManager True) twoHeadingsDoc ts)
         (filter (startsLane sampleEnv ts) (enumerate 0 ts))) = [[], [''Buy milk'']]"
    unfolding ts_def by code_simp
  from TT have "map (lane_title \<circ> lane_data) (board_children ?T)
      = map (\<lambda>p. fst (parseLaneTitle sampleEnv (headingText twoHeadingsDoc (snd p))))
          (filter (startsLane sampleEnv ts) (enumerate 0 ts))"
    by (rule conjunct1)
  with lt have gt1: "map (lane_title \<circ> lane_data) (board_children ?T) = [''A'', ''B'']"
    by (simp only:)
  from TT have "map (map item_data \<circ> lane_children) (board_children ?T)
      = map (followingItems sampleEnv (sampleManager True) twoHeadingsDoc ts)
          (filter (startsLane sampleEnv ts) (enumerate 0 ts))"
    by blast
  with it have "map (map title) (map (map item_data \<circ> lane_children) (board_children ?T))
      = [[], [''Buy milk'']]"
    by (simp only:)
  then have gt2: "map (map (title \<circ> item_data) \<circ> lane_children) (board_children ?T)
      = [[], [''Buy milk'']]"
    by (simp add: comp_def)
  from a1(1,2) ra ga1 ga2 b1 rb gb1 gb2 ft gt1 gt2 show ?thesis
    unfolding root cs_def[symmetric] bs_def[symmetric] ts_def[symmetric] by simp
qed
section \<open>Scanning the project documents\<close>

text \<open>
  A key that is not in the map yet is appended; a read that succeeds never adds an error;
  with distinct paths the scan stores one entry per document that is not blank, in
  order, and the aggregated lanes are theirs.
\<close>

lemma map_set_fresh: "k \<notin> fst ` set m \<Longrightarrow> map_set m k v = m @ [(k, v)]"
  by (induction m) auto

lemma scanStep_readable:
  assumes "readable vf"
  shows "scanStep e g vf (pfs, errs) =
     (if blankContent (contentOf vf) then pfs
      else map_set pfs (path (vf_file vf)) (projectFileOf e g (vf_file vf) (contentOf vf)), errs)"
  using assms
  by (cases "vf_read vf")
     (simp_all add: readable_def scanStep_def contentOf_def blankContent_def projectFileOf_def Let_def)

lemma fold_scanStep:
  assumes "list_all readable fs"
      and "distinct (map (\<lambda>a. path (vf_file a)) fs)"
      and "fst ` set pfs \<inter> (\<lambda>a. path (vf_file a)) ` set fs = {}"
  shows "fold (scanStep e g) fs (pfs, errs) =
     (pfs @ map (\<lambda>vf. (path (vf_file vf), projectFileOf e g (vf_file vf) (contentOf vf)))
              (filter (\<lambda>vf. \<not> blankContent (contentOf vf)) fs), errs)"
  using assms
proof (induction fs arbitrary: pfs)
  case Nil
  then show ?case by simp
next
  case (Cons vf fs)
  from Cons.prems(1) have r: "readable vf" and rs: "list_all readable fs"
    by simp_all
  from Cons.prems(2) have d: "distinct (map (\<lambda>a. path (vf_file a)) fs)"
    and nin: "path (vf_file vf) \<notin> (\<lambda>a. path (vf_file a)) ` set fs"
    by simp_all
  from Cons.prems(3) have fresh: "path (vf_file vf) \<notin> fst ` set pfs"
    and disj: "fst ` set pfs \<inter> (\<lambda>a. path (vf_file a)) ` set fs = {}"
    by auto
  show ?case
  proof (cases "blankContent (contentOf vf)")
    case True
    with Cons.IH[OF rs d disj] r show ?thesis by (simp add: scanStep_readable)
  next
    case False
    let ?pfs = "pfs @ [(path (vf_file vf), projectFileOf e g (vf_file vf) (contentOf vf))]"
    have "fst ` set ?pfs \<inter> (\<lambda>a. path (vf_file a)) ` set fs = {}"
      using disj nin by auto
    from Cons.IH[OF rs d this] r False fresh show ?thesis
      by (simp add: scanStep_readable map_set_fresh)
  qed
qed

lemma aggregatedLanes_map:
  "aggregatedLanes (map (\<lambda>vf. (path (vf_file vf), projectFileOf e g (vf_file vf) (contentOf vf))) fs)
     = concat (map (lanesOfDoc e g) fs)"
  by (induction fs) (simp_all add: aggregatedLanes_def lanesOfDoc_def)

lemma scan_readable:
  assumes "list_all readable (filter vf_project vault)"
      and "distinct (map (\<lambda>a. path (vf_file a)) (filter vf_project vault))"
  shows "scanProjectFiles e g vault st =
     \<lparr>ps_projectFiles = map (\<lambda>vf. (path (vf_file vf), projectFileOf e g (vf_file vf) (contentOf vf)))
        (filter (\<lambda>vf. \<not> blankContent (contentOf vf)) (filter vf_project vault)),
      ps_aggregatedBoard = (ps_aggregatedBoard st)\<lparr>board_children :=
        concat (map (lanesOfDoc e g)
          (filter (\<lambda>vf. \<not> blankContent (contentOf vf)) (filter vf_project vault)))\<rparr>,
      ps_errors = []\<rparr>"
proof -
  have "fold (scanStep e g) (filter vf_project vault) ([], []) =
     ([] @ map (\<lambda>vf. (path (vf_file vf), projectFileOf e g (vf_file vf) (contentOf vf)))
              (filter (\<lambda>vf. \<not> blankContent (contentOf vf)) (filter vf_project vault)), [])"
    using assms by (intro fold_scanStep) simp_all
  then show ?thesis
    by (simp add: scanProjectFiles_def Let_def aggregateBoards_def aggregatedLanes_map)
qed

lemma concat_single:
  assumes "y \<in> set xs" "distinct xs" "P y"
      and "\<And>x. x \<in> set xs \<Longrightarrow> x \<noteq> y \<Longrightarrow> P x \<Longrightarrow> h x = []"
  shows "concat (map h (filter P xs)) = h y"
  using assms
proof (induction xs)
  case Nil
  then show ?case by simp
next
  case (Cons x xs)
  show ?case
  proof (cases "x = y")
    case True
    with Cons.prems have "y \<notin> set xs" by simp
    then have "\<And>z. z \<in> set (filter P xs) \<Longrightarrow> h z = []"
      using Cons.prems(4) by auto
    then have "concat (map h (filter P xs)) = []" by (induction xs) auto
    with True Cons.prems(3) show ?thesis by simp
  next
    case False
    with Cons.prems have y: "y \<in> set xs" and d: "distinct xs" by auto
    have hx: "P x \<Longrightarrow> h x = []" using Cons.prems(4)[of x] False by simp
    from Cons.IH[OF y d Cons.prems(3)] Cons.prems(4) hx show ?thesis by auto
  qed
qed

lemma scan_skips_blank:
  assumes "readable fe" "blankContent (contentOf fe)"
  shows "scanProjectFiles e g vault st = scanProjectFiles e g (filter (\<lambda>vf. vf \<noteq> fe) vault) st"
proof -
  have "fold (scanStep e g) (filter vf_project vault) acc
      = fold (scanStep e g) (filter vf_project (filter (\<lambda>vf. vf \<noteq> fe) vault)) acc" for acc
  proof (induction vault arbitrary: acc)
    case Nil
    then show ?case by simp
  next
    case (Cons vf vault)
    obtain pfs errs where acc: "acc = (pfs, errs)" by (cases acc)
    show ?case
    proof (cases "vf = fe")
      case True
      with assms Cons.IH acc show ?thesis by (simp add: scanStep_readable)
    next
      case False
      with Cons.IH show ?thesis by simp
    qed
  qed
  then show ?thesis by (simp add: scanProjectFiles_def)
qed

section \<open>One scan over an empty, a broken and a valid document\<close>

text \<open>
  C4 as stated fails: the scan of an empty document, a document without a frontmatter
  block and a valid document records no error at all, not two. The error list of the
  manager and the error list of the aggregated board are both empty after the scan. The
  one lane of the aggregated board is the lane of the valid document.
\<close>

theorem scan_error_count_counterexample:
  "ps_errors (scanProjectFiles sampleEnv (sampleGlobals True) threeDocs (initialState ''kanban-plugin'')) = []
   \<and> errors (board_data (ps_aggregatedBoard
        (scanProjectFiles sampleEnv (sampleGlobals True) threeDocs (initialState ''kanban-plugin'')))) = []
   \<and> map lane_id (board_children (ps_aggregatedBoard
        (scanProjectFiles sampleEnv (sampleGlobals True) threeDocs (initialState ''kanban-plugin''))))
       = [''Good.md:::id1'']"
  by code_simp

text \<open>
  C4, amended. A scan of three candidate documents with distinct paths, in any order,
  whose reads succeed, where one is empty or blank, one is a document on which
  \<open>parseMarkdown\<close> raises (one without a leading frontmatter block, or one whose
  frontmatter the YAML parser rejects) and one is not blank, gives an aggregated board
  whose lanes are exactly the aggregated lanes of the third document's board. The empty document is skipped
  silently: the scan returns the same state as the scan without it. The scan is a
  total function, so no error escapes it.
\<close>

theorem fault_isolated_scan:
  assumes "set vault = {fe, fb, fg}"
      and "distinct (map (\<lambda>a. path (vf_file a)) vault)"
      and "vf_project fe" and "vf_project fb" and "vf_project fg"
      and "vf_read fe = Inr ce" and "blankContent ce"
      and "vf_read fb = Inr cb"
      and "parseMarkdown e (createTempStateManager g (vf_file fb)) cb = Inl err"
      and "vf_read fg = Inr cg" and "\<not> blankContent cg"
  shows "board_children (ps_aggregatedBoard (scanProjectFiles e g vault st))
           = map (aggregateLane (path (vf_file fg)) (projectFileOf e g (vf_file fg) cg))
               (enumerate 0 (board_children
                  (parseProjectFile e (createTempStateManager g (vf_file fg)) cg)))
         \<and> scanProjectFiles e g vault st
           = scanProjectFiles e g (filter (\<lambda>vf. vf \<noteq> fe) vault) st"
proof (rule conjI)
  have proj: "filter vf_project vault = vault"
    using assms(1,3,4,5) by (auto simp: filter_id_conv)
  have rd: "list_all readable vault"
    using assms(1,6,8,10) by (auto simp: list_all_iff readable_def)
  have dv: "distinct vault"
    using assms(2) by (simp add: distinct_map)
  have cg: "contentOf fg = cg" and cb: "contentOf fb = cb" and ce: "contentOf fe = ce"
    using assms(6,8,10) by (simp_all add: contentOf_def)
  have "board_children (ps_aggregatedBoard (scanProjectFiles e g vault st))
      = concat (map (lanesOfDoc e g) (filter (\<lambda>vf. \<not> blankContent (contentOf vf)) vault))"
    using scan_readable[of vault e g st] proj rd assms(2) by simp
  also have "\<dots> = lanesOfDoc e g fg"
  proof (rule concat_single)
    show "fg \<in> set vault" using assms(1) by simp
    show "distinct vault" by (rule dv)
    show "\<not> blankContent (contentOf fg)" using cg assms(11) by simp
  next
    fix x assume x: "x \<in> set vault" "x \<noteq> fg" "\<not> blankContent (contentOf x)"
    with assms(1,7) ce have "x = fb" by auto
    with cb parseProjectFile_failed[OF assms(9)] show "lanesOfDoc e g x = []"
      by (simp add: lanesOfDoc_def projectFileOf_def failedBoard_def)
  qed
  finally show "board_children (ps_aggregatedBoard (scanProjectFiles e g vault st))
           = map (aggregateLane (path (vf_file fg)) (projectFileOf e g (vf_file fg) cg))
               (enumerate 0 (board_children
                  (parseProjectFile e (createTempStateManager g (vf_file fg)) cg)))"
    by (simp add: lanesOfDoc_def cg projectFileOf_def)
next
  have "readable fe" using assms(6) by (simp add: readable_def)
  moreover have "blankContent (contentOf fe)" using assms(6,7) by (simp add: contentOf_def)
  ultimately show "scanProjectFiles e g vault st
           = scanProjectFiles e g (filter (\<lambda>vf. vf \<noteq> fe) vault) st"
    by (rule scan_skips_blank)
qed

theorem fault_isolated_scan_witness:
  "set threeDocs = {vaultFileOf ''Empty.md'' ''Empty'' [], vaultFileOf ''Bare.md'' ''Bare'' bareDoc,
                    vaultFileOf ''Good.md'' ''Good'' goodDoc}
   \<and> distinct (map (\<lambda>a. path (vf_file a)) threeDocs)
   \<and> blankContent []
   \<and> parseMarkdown sampleEnv
         (createTempStateManager (sampleGlobals True) \<lparr>path = ''Bare.md'', basename = ''Bare''\<rparr>) bareDoc
       = Inl (Error ''Error parsing frontmatter'')
   \<and> \<not> blankContent goodDoc
   \<and> board_children (ps_aggregatedBoard
        (scanProjectFiles sampleEnv (sampleGlobals True) threeDocs (initialState ''kanban-plugin'')))
       = map (aggregateLane ''Good.md''
                (projectFileOf sampleEnv (sampleGlobals True) \<lparr>path = ''Good.md'', basename = ''Good''\<rparr> goodDoc))
           (enumerate 0 (board_children
              (parseProjectFile sampleEnv
                 (createTempStateManager (sampleGlobals True) \<lparr>path = ''Good.md'', basename = ''Good''\<rparr>)
                 goodDoc)))
   \<and> scanProjectFiles sampleEnv (sampleGlobals True) threeDocs (initialState ''kanban-plugin'')
       = scanProjectFiles sampleEnv (sampleGlobals True)
           (filter (\<lambda>vf. vf \<noteq> vaultFileOf ''Empty.md'' ''Empty'' []) threeDocs)
           (initialState ''kanban-plugin'')"
proof -
  have h1: "set threeDocs = {vaultFileOf ''Empty.md'' ''Empty'' [], vaultFileOf ''Bare.md'' ''Bare'' bareDoc,
                    vaultFileOf ''Good.md'' ''Good'' goodDoc}"
    by (simp add: threeDocs_def)
  have h2: "distinct (map (\<lambda>a. path (vf_file a)) threeDocs)"
    by (simp add: threeDocs_def vaultFileOf_def)
  have h3: "blankContent []" by (simp add: blankContent_def)
  have b: "take 3 bareDoc \<noteq> ''---''" "3 \<le> length bareDoc"
    by (simp_all add: bareDoc_def)
  have h4: "parseMarkdown sampleEnv
         (createTempStateManager (sampleGlobals True) \<lparr>path = ''Bare.md'', basename = ''Bare''\<rparr>) bareDoc
       = Inl (Error ''Error parsing frontmatter'')"
    using extractFrontmatter_raises[OF b] by (simp add: parseMarkdown_def)
  have h4': "parseMarkdown sampleEnv
         (createTempStateManager (sampleGlobals True) (vf_file (vaultFileOf ''Bare.md'' ''Bare'' bareDoc))) bareDoc
       = Inl (Error ''Error parsing frontmatter'')"
    using h4 by (simp add: vaultFileOf_def)
  have h5: "\<not> blankContent goodDoc" by code_simp
  have p: "vf_project (vaultFileOf ''Empty.md'' ''Empty'' [])"
    "vf_project (vaultFileOf ''Bare.md'' ''Bare'' bareDoc)"
    "vf_project (vaultFileOf ''Good.md'' ''Good'' goodDoc)"
    by (simp_all add: vaultFileOf_def)
  have rd: "vf_read (vaultFileOf ''Empty.md'' ''Empty'' []) = Inr []"
    "vf_read (vaultFileOf ''Bare.md'' ''Bare'' bareDoc) = Inr bareDoc"
    "vf_read (vaultFileOf ''Good.md'' ''Good'' goodDoc) = Inr goodDoc"
    by (simp_all add: vaultFileOf_def)
  have g: "vf_file (vaultFileOf ''Good.md'' ''Good'' goodDoc) = \<lparr>path = ''Good.md'', basename = ''Good''\<rparr>"
    by (simp add: vaultFileOf_def)
  have gp: "path \<lparr>path = ''Good.md'', basename = ''Good''\<rparr> = ''Good.md''"
    by simp
  note r = fault_isolated_scan[of threeDocs "vaultFileOf ''Empty.md'' ''Empty'' []"
      "vaultFileOf ''Bare.md'' ''Bare'' bareDoc" "vaultFileOf ''Good.md'' ''Good'' goodDoc"
      "[]" bareDoc sampleEnv "sampleGlobals True" "Error ''Error parsing frontmatter''" goodDoc
      "initialState ''kanban-plugin''",
      OF h1 h2 p rd(1) h3 rd(2) h4' rd(3) h5, unfolded g gp]
  from h1 h2 h3 h4 h5 r show ?thesis by blast
qed

section \<open>Reconciliation of an edited aggregated board\<close>





















lemma withLaneChildren_id [simp]: "lane_id (withLaneChildren lid ais al) = lane_id al"
  by (simp add: withLaneChildren_def)








section \<open>What reconciliation hands to the saver\<close>




end
